theory Spec2Isabelle
  imports Complex_Main "HOL-Library.Word"
begin

section \<open>Conventions of the embedding\<close>

text \<open>
  The development embeds \<^verbatim>\<open>skyproj/hpx_utils.py\<close> and \<^verbatim>\<open>skyproj/skygrid.py\<close>.
  A float64 quantity is a \<^typ>\<open>real\<close>; where the source tests for NaN or inserts NaN
  the value type carries NaN explicitly. Every \<^verbatim>\<open>raise\<close> of the source, and every
  exception numpy or Python raises on the modelled paths, is a value of \<open>error\<close>.
  Functions of other packages (hpgeom, matplotlib, the projection) are parameters.
\<close>

datatype error =
    NoValidPixelsError      \<comment> \<open>\<^verbatim>\<open>NoValidPixelsError("No valid pixels; zoom is not available.")\<close>\<close>
  | NotUniqueError          \<comment> \<open>\<^verbatim>\<open>ValueError("The pixels array must be unique.")\<close>\<close>
  | NotInitializedError     \<comment> \<open>\<^verbatim>\<open>RuntimeError("Must first call update_lim(axis)")\<close>\<close>
  | UnboundLocalError       \<comment> \<open>a local variable read before any assignment\<close>
  | NegativeSamplesError    \<comment> \<open>\<^verbatim>\<open>np.linspace\<close> with a negative number of samples\<close>
  | EmptyReductionError     \<comment> \<open>\<^verbatim>\<open>.max()\<close> or \<^verbatim>\<open>.min()\<close> of a zero-size array\<close>
  | NanToIntError           \<comment> \<open>\<^verbatim>\<open>int(nan)\<close>\<close>
  | IndexError              \<comment> \<open>an index outside the indexed array\<close>
  | ShapeError              \<comment> \<open>arrays whose shapes do not broadcast\<close>
  | ExternalError           \<comment> \<open>any exception raised inside a collaborator\<close>

section \<open>Geometry: where a polyline crosses a box\<close>

type_synonym point = "real \<times> real"

text \<open>\<^verbatim>\<open>Bbox.from_extents(x0, y0, x1, y1)\<close>; \<^verbatim>\<open>bbox.min\<close> and \<^verbatim>\<open>bbox.max\<close> are the
  coordinate-wise minimum and maximum of the two corner points.\<close>

record Bbox =
  bx0 :: real
  by0 :: real
  bx1 :: real
  by1 :: real

definition bbox_min :: "Bbox \<Rightarrow> point" where
  "bbox_min b = (min (bx0 b) (bx1 b), min (by0 b) (by1 b))"

definition bbox_max :: "Bbox \<Rightarrow> point" where
  "bbox_max b = (max (bx0 b) (bx1 b), max (by0 b) (by1 b))"

text \<open>\<^verbatim>\<open>a[1:] - a[:-1]\<close>\<close>

definition diffs :: "real list \<Rightarrow> real list" where
  "diffs xs = map2 (\<lambda>b a. b - a) (tl xs) (butlast xs)"

text \<open>\<^verbatim>\<open>np.arctan2(y, x)\<close> on reals, and \<^verbatim>\<open>np.degrees\<close>.\<close>

definition arctan2 :: "real \<Rightarrow> real \<Rightarrow> real" where
  "arctan2 y x =
     (if 0 < x then arctan (y / x)
      else if x < 0 then (if 0 \<le> y then arctan (y / x) + pi else arctan (y / x) - pi)
      else if 0 < y then pi / 2
      else if y < 0 then - (pi / 2)
      else 0)"

definition degrees :: "real \<Rightarrow> real" where
  "degrees r = r * 180 / pi"

text \<open>\<^verbatim>\<open>(a, b)[sl]\<close> for the two slices of the outer loop: the identity and the reversal.\<close>

definition sl_pair :: "bool \<Rightarrow> 'a \<times> 'a \<Rightarrow> 'a \<times> 'a" where
  "sl_pair sw p = (if sw then (snd p, fst p) else p)"

text \<open>\<^verbatim>\<open>(inside[:-1] ^ inside[1:]).nonzero()\<close>\<close>

definition xor_idxs :: "bool list \<Rightarrow> nat list" where
  "xor_idxs inside = filter (\<lambda>i. inside ! i \<noteq> inside ! Suc i) [0..<length inside - 1]"

text \<open>The body of the innermost loop, for one index; the empty list is \<^verbatim>\<open>continue\<close>.\<close>

definition crossing_at ::
  "bool \<Rightarrow> real list \<Rightarrow> real list \<Rightarrow> real list \<Rightarrow> real list \<Rightarrow> point list \<Rightarrow>
   real \<Rightarrow> real \<Rightarrow> real \<Rightarrow> nat \<Rightarrow> (point \<times> real) list" where
  "crossing_at sw us vs dus dvs dxys vmin vmax u0 idx =
     (let v = vs ! idx + (u0 - us ! idx) * dvs ! idx / dus ! idx in
      if \<not> (vmin \<le> v \<and> v \<le> vmax) then []
      else [(sl_pair sw (u0, v),
             degrees (arctan2 (snd (dxys ! idx)) (fst (dxys ! idx))))])"

text \<open>One pass of the outer loop: the two sides \<open>umin\<close> and \<open>umax\<close> of one axis.\<close>

definition axis_crossings :: "bool \<Rightarrow> point list \<Rightarrow> Bbox \<Rightarrow> (point \<times> real) list list" where
  "axis_crossings sw xys bbox =
     (let (us, vs) = sl_pair sw (map fst xys, map snd xys);
          dxys = zip (diffs (map fst xys)) (diffs (map snd xys));
          (dus, dvs) = sl_pair sw (map fst dxys, map snd dxys);
          (umin, vmin) = sl_pair sw (bbox_min bbox);
          (umax, vmax) = sl_pair sw (bbox_max bbox)
      in map (\<lambda>(u0, inside).
               concat (map (crossing_at sw us vs dus dvs dxys vmin vmax u0) (xor_idxs inside)))
             [(umin, map (\<lambda>u. u > umin) us), (umax, map (\<lambda>u. u < umax) us)])"

text \<open>\<^verbatim>\<open>_find_line_box_crossings\<close>: the four lists, for the left, right, bottom and top side.\<close>

definition find_line_box_crossings :: "point list \<Rightarrow> Bbox \<Rightarrow> (point \<times> real) list list" where
  "find_line_box_crossings xys bbox = axis_crossings False xys bbox @ axis_crossings True xys bbox"

section \<open>Arrays and floats\<close>

text \<open>A float64 that may be NaN or infinite, for the places where the source tests for it.\<close>

datatype npfloat = Finite real | PosInf | NegInf | NaN

text \<open>\<^verbatim>\<open>np.isnan\<close>\<close>

fun isnan :: "npfloat \<Rightarrow> bool" where
  "isnan NaN = True"
| "isnan _ = False"

text \<open>\<^verbatim>\<open>np.isclose(a, b)\<close> with a finite \<open>b\<close> and the default tolerances
  \<^verbatim>\<open>rtol=1e-05\<close>, \<^verbatim>\<open>atol=1e-08\<close>: \<^verbatim>\<open>|a - b| <= atol + rtol * |b|\<close> for a finite \<open>a\<close>,
  false otherwise.\<close>

fun isclose :: "npfloat \<Rightarrow> real \<Rightarrow> bool" where
  "isclose (Finite a) b = (\<bar>a - b\<bar> \<le> 1 / 10 ^ 8 + 1 / 10 ^ 5 * \<bar>b\<bar>)"
| "isclose _ b = False"

text \<open>\<^verbatim>\<open>hpgeom.UNSEEN\<close>, the constant \<^verbatim>\<open>-1.6375e+30\<close> of the pixelization library.\<close>

definition UNSEEN :: real where
  "UNSEEN = - 16375 * 10 ^ 26"

text \<open>\<^verbatim>\<open>np.clip(x, lo, hi)\<close>, which is \<^verbatim>\<open>minimum(maximum(x, lo), hi)\<close>.\<close>

definition clip :: "real \<Rightarrow> real \<Rightarrow> real \<Rightarrow> real" where
  "clip x lo hi = min (max x lo) hi"

definition deg2rad :: "real \<Rightarrow> real" where
  "deg2rad d = d * pi / 180"

text \<open>A 2-d array: its shape and its rows. The shape is kept apart because an array
  with no rows still has a number of columns.\<close>

record 'a arr2 =
  nrows :: nat
  ncols :: nat
  cells :: "'a list list"

definition map_arr :: "('a \<Rightarrow> 'b) \<Rightarrow> 'a arr2 \<Rightarrow> 'b arr2" where
  "map_arr f g = \<lparr>nrows = nrows g, ncols = ncols g, cells = map (map f) (cells g)\<rparr>"

definition map2_arr :: "('a \<Rightarrow> 'b \<Rightarrow> 'c) \<Rightarrow> 'a arr2 \<Rightarrow> 'b arr2 \<Rightarrow> 'c arr2" where
  "map2_arr f g h =
     \<lparr>nrows = nrows g, ncols = ncols g, cells = map2 (\<lambda>r s. map2 f r s) (cells g) (cells h)\<rparr>"

text \<open>All cells in row-major order (\<^verbatim>\<open>a.ravel()\<close>).\<close>

definition ravel :: "'a arr2 \<Rightarrow> 'a list" where
  "ravel g = concat (cells g)"

text \<open>The rows of an array agree with its shape.\<close>

definition wf_arr :: "'a arr2 \<Rightarrow> bool" where
  "wf_arr g = (length (cells g) = nrows g \<and> (\<forall>i < nrows g. length (cells g ! i) = ncols g))"

text \<open>A masked array \<^verbatim>\<open>np.ma.array(values, mask=mask)\<close>.\<close>

record 'a masked =
  ma_data :: "'a arr2"
  ma_mask :: "bool arr2"

text \<open>Indexing a 1-d numpy array with an integer: a negative index counts from the end.\<close>

definition norm_index :: "nat \<Rightarrow> int \<Rightarrow> nat option" where
  "norm_index n i =
     (let j = (if i < 0 then int n + i else i)
      in if 0 \<le> j \<and> j < int n then Some (nat j) else None)"

definition np_index :: "'a list \<Rightarrow> int \<Rightarrow> error + 'a" where
  "np_index xs i = (case norm_index (length xs) i of None \<Rightarrow> Inl IndexError | Some k \<Rightarrow> Inr (xs ! k))"

text \<open>Runs a fallible function over every cell and stops at the first exception.\<close>

fun mapE :: "('a \<Rightarrow> error + 'b) \<Rightarrow> 'a list \<Rightarrow> error + 'b list" where
  "mapE f [] = Inr []"
| "mapE f (x # xs) =
     (case f x of
        Inl e \<Rightarrow> Inl e
      | Inr y \<Rightarrow> (case mapE f xs of Inl e \<Rightarrow> Inl e | Inr ys \<Rightarrow> Inr (y # ys)))"

definition mapE_arr :: "('a \<Rightarrow> error + 'b) \<Rightarrow> 'a arr2 \<Rightarrow> error + 'b arr2" where
  "mapE_arr f g =
     (case mapE (mapE f) (cells g) of
        Inl e \<Rightarrow> Inl e
      | Inr rs \<Rightarrow> Inr \<lparr>nrows = nrows g, ncols = ncols g, cells = rs\<rparr>)"

text \<open>\<^verbatim>\<open>np.linspace(a, b, n)\<close> for \<open>n \<ge> 0\<close>.\<close>

definition linspace :: "real \<Rightarrow> real \<Rightarrow> nat \<Rightarrow> real list" where
  "linspace a b n =
     (if n = 1 then [a] else map (\<lambda>i. a + real i * ((b - a) / real (n - 1))) [0..<n])"

text \<open>\<^verbatim>\<open>np.meshgrid(xs, ys)\<close>: two arrays of shape \<^verbatim>\<open>(len(ys), len(xs))\<close>.\<close>

definition meshgrid :: "real list \<Rightarrow> real list \<Rightarrow> real arr2 \<times> real arr2" where
  "meshgrid xs ys =
     (\<lparr>nrows = length ys, ncols = length xs, cells = map (\<lambda>_. xs) ys\<rparr>,
      \<lparr>nrows = length ys, ncols = length xs, cells = map (\<lambda>y. map (\<lambda>_. y) xs) ys\<rparr>)"

text \<open>Python's \<^verbatim>\<open>int(x)\<close> of a float: truncation towards zero.\<close>

definition py_int :: "real \<Rightarrow> int" where
  "py_int x = (if 0 \<le> x then \<lfloor>x\<rfloor> else \<lceil>x\<rceil>)"

text \<open>
  The first statement of the three rasterizers:
  \<^verbatim>\<open>np.meshgrid(np.linspace(lon_range[0], lon_range[1], xsize),
              np.linspace(lat_range[0], lat_range[1], int(aspect*xsize)))\<close>.
\<close>

definition make_mesh ::
  "real \<times> real \<Rightarrow> real \<times> real \<Rightarrow> int \<Rightarrow> real \<Rightarrow> error + (real arr2 \<times> real arr2)" where
  "make_mesh lon_range lat_range xsize aspect =
     (let ysize = py_int (aspect * real_of_int xsize)
      in if xsize < 0 \<or> ysize < 0 then Inl NegativeSamplesError
         else Inr (meshgrid (linspace (fst lon_range) (snd lon_range) (nat xsize))
                            (linspace (fst lat_range) (snd lat_range) (nat ysize))))"

text \<open>The central locations \<^verbatim>\<open>(g[1:, 1:] + g[:-1, :-1])/2.\<close>\<close>

definition centers :: "real arr2 \<Rightarrow> real arr2" where
  "centers g =
     \<lparr>nrows = nrows g - 1, ncols = ncols g - 1,
      cells = map2 (\<lambda>r1 r0. map2 (\<lambda>b a. (b + a) / 2) (tl r1) (butlast r0))
                   (tl (cells g)) (butlast (cells g))\<rparr>"

section \<open>The functions of hpx_utils\<close>

text \<open>
  The functions of hpgeom that the module calls. \<open>angle_to_pixel\<close> and \<open>pixel_to_angle\<close>
  take the resolution and the ordering first and are applied element by element.
\<close>

record hpgeom =
  pixel_to_angle :: "nat \<Rightarrow> bool \<Rightarrow> int \<Rightarrow> real \<times> real"
  angle_to_pixel :: "nat \<Rightarrow> bool \<Rightarrow> real \<Rightarrow> real \<Rightarrow> int"
  max_pixel_radius :: "nat \<Rightarrow> real"
  npixel_to_nside :: "nat \<Rightarrow> error + nat"
  nside_to_npixel :: "nat \<Rightarrow> nat"

subsection \<open>healpix_pixels_range\<close>

text \<open>Python's \<^verbatim>\<open>x % 360.\<close> on floats: the result lies in \<open>[0, 360)\<close>.\<close>

definition fmod360 :: "real \<Rightarrow> real" where
  "fmod360 x = x - 360 * of_int \<lfloor>x / 360\<rfloor>"

text \<open>\<^verbatim>\<open>np.min\<close>, \<^verbatim>\<open>np.max\<close> and \<^verbatim>\<open>np.median\<close> of a non-empty 1-d array.\<close>

fun list_min :: "real list \<Rightarrow> real" where
  "list_min [] = 0"
| "list_min [x] = x"
| "list_min (x # xs) = min x (list_min xs)"

fun list_max :: "real list \<Rightarrow> real" where
  "list_max [] = 0"
| "list_max [x] = x"
| "list_max (x # xs) = max x (list_max xs)"

definition median :: "real list \<Rightarrow> real" where
  "median xs =
     (let s = sort xs; n = length xs
      in if odd n then s ! (n div 2) else (s ! (n div 2 - 1) + s ! (n div 2)) / 2)"

text \<open>The longitudes after \<^verbatim>\<open>lon_wrap = (lon + wrap) % 360. - wrap\<close>.\<close>

definition lon_wrap :: "real \<Rightarrow> real list \<Rightarrow> real list" where
  "lon_wrap wrap lon = map (\<lambda>l. fmod360 (l + wrap) - wrap) lon"

text \<open>The \<^verbatim>\<open>if\<close>/\<^verbatim>\<open>elif\<close> chain that sets \<^verbatim>\<open>full_range\<close>.\<close>

definition full_range :: "real \<Rightarrow> real \<times> real \<Rightarrow> bool" where
  "full_range wrap lon_range =
     (if fst lon_range < wrap - 360 \<and> snd lon_range > wrap - 360 then True
      else if fst lon_range < wrap + 360 \<and> snd lon_range > wrap + 360 then True
      else if snd lon_range - fst lon_range \<ge> 359 then True
      else False)"

text \<open>
  \<^verbatim>\<open>healpix_pixels_range(nside, pixels, wrap, nest)\<close>. The first parameter is
  \<^verbatim>\<open>wrap_values\<close> of \<^verbatim>\<open>skyproj.utils\<close>, called here with one argument.
\<close>

definition healpix_pixels_range ::
  "(real \<Rightarrow> real) \<Rightarrow> hpgeom \<Rightarrow> nat \<Rightarrow> int list \<Rightarrow> real \<Rightarrow> bool \<Rightarrow>
   error + ((real \<times> real) \<times> (real \<times> real))" where
  "healpix_pixels_range wrap_values hp nside pixels wrap nest =
     (if length pixels = 0 then Inl NoValidPixelsError
      else
        let lon = map (\<lambda>p. fst (pixel_to_angle hp nside nest p)) pixels;
            lat = map (\<lambda>p. snd (pixel_to_angle hp nside nest p)) pixels;
            eps = max_pixel_radius hp nside;
            eps_lon = eps / cos (deg2rad (median lat));
            lat_range = (max (list_min lat - eps) (- 90 + 1 / 10 ^ 5),
                         min (list_max lat + eps) (90 - 1 / 10 ^ 5));
            lw = lon_wrap wrap lon;
            lon_range = (list_min lw - eps_lon, list_max lw + eps_lon)
        in if full_range wrap lon_range then
             (let lon_0 = wrap_values (fmod360 (wrap + 180))
              in Inr ((lon_0 - 180, lon_0 + 180 - 1 / 10 ^ 5), lat_range))
           else Inr (lon_range, lat_range))"

subsection \<open>hspmap_to_xy\<close>

text \<open>
  What the module reads of a healsparse map: the flag \<^verbatim>\<open>is_wide_mask_map\<close>, the
  sentinel, and \<^verbatim>\<open>get_values_pos(lon, lat, valid_mask)\<close>, whose result is an array of
  bit planes (a wide mask), of booleans, or of numbers.
\<close>

datatype hsp_value = Bits "bool list" | BoolV bool | NumV npfloat

record hspmap =
  is_wide_mask_map :: bool
  sentinel :: hsp_value
  get_values_pos :: "bool \<Rightarrow> real \<Rightarrow> real \<Rightarrow> hsp_value"

text \<open>The value and the mask of one cell, along the three branches of the source; a
  boolean is shown as the integer 0 or 1. An array of bit planes comes from a wide mask
  only, so the last case of the second branch is never taken.\<close>

definition hsp_cell :: "hspmap \<Rightarrow> hsp_value \<Rightarrow> npfloat \<times> bool" where
  "hsp_cell m v =
     (if is_wide_mask_map m then
        (let a = (case v of Bits bs \<Rightarrow> (\<exists>b \<in> set bs. b) | BoolV b \<Rightarrow> b | NumV x \<Rightarrow> x \<noteq> Finite 0)
         in (Finite (if a then 1 else 0), \<not> a))
      else
        (case v of
           BoolV b \<Rightarrow> (Finite (if b then 1 else 0), BoolV b = sentinel m)
         | NumV x \<Rightarrow>
             (x, (case sentinel m of NumV (Finite s) \<Rightarrow> isclose x s | _ \<Rightarrow> False) \<or> isnan x)
         | Bits bs \<Rightarrow> (Finite (if (\<exists>b \<in> set bs. b) then 1 else 0), False)))"

definition hspmap_to_xy ::
  "hspmap \<Rightarrow> real \<times> real \<Rightarrow> real \<times> real \<Rightarrow> int \<Rightarrow> real \<Rightarrow> bool \<Rightarrow>
   error + (real arr2 \<times> real arr2 \<times> npfloat masked)" where
  "hspmap_to_xy m lon_range lat_range xsize aspect valid_mask =
     (case make_mesh lon_range lat_range xsize aspect of
        Inl e \<Rightarrow> Inl e
      | Inr (lon_raster, lat_raster) \<Rightarrow>
          (let clon = centers lon_raster;
               clat = centers lat_raster;
               vals = map2_arr (get_values_pos m valid_mask) clon clat
           in Inr (lon_raster, lat_raster,
                   \<lparr>ma_data = map_arr (\<lambda>v. fst (hsp_cell m v)) vals,
                    ma_mask = map_arr (\<lambda>v. snd (hsp_cell m v)) vals\<rparr>)))"

subsection \<open>hpxmap_to_xy\<close>

definition hpxmap_to_xy ::
  "hpgeom \<Rightarrow> npfloat list \<Rightarrow> real \<times> real \<Rightarrow> real \<times> real \<Rightarrow> bool \<Rightarrow> int \<Rightarrow> real \<Rightarrow>
   error + (real arr2 \<times> real arr2 \<times> npfloat masked)" where
  "hpxmap_to_xy hp hpxmap lon_range lat_range nest xsize aspect =
     (case make_mesh lon_range lat_range xsize aspect of
        Inl e \<Rightarrow> Inl e
      | Inr (lon_raster, lat_raster) \<Rightarrow>
          (let clon = centers lon_raster;
               clat = centers lat_raster
           in case npixel_to_nside hp (length hpxmap) of
                Inl e \<Rightarrow> Inl e
              | Inr nside \<Rightarrow>
                  (let pix_raster = map2_arr (angle_to_pixel hp nside nest) clon clat
                   in case mapE_arr (np_index hpxmap) pix_raster of
                        Inl e \<Rightarrow> Inl e
                      | Inr vals \<Rightarrow>
                          Inr (lon_raster, lat_raster,
                               \<lparr>ma_data = vals,
                                ma_mask = map_arr (\<lambda>v. isclose v UNSEEN \<or> isnan v) vals\<rparr>))))"

subsection \<open>healpix_to_xy\<close>

text \<open>\<^verbatim>\<open>np.argsort(pixels)\<close>: the indices of \<open>pixels\<close> in increasing order of the entries.\<close>

definition argsort :: "int list \<Rightarrow> nat list" where
  "argsort pixels = map snd (sort_key fst (zip pixels [0..<length pixels]))"

text \<open>\<^verbatim>\<open>np.searchsorted(pixels, q, sorter=st)\<close>, side left: the number of entries of the
  sorted array in front of the first one that is not below \<open>q\<close>.\<close>

definition searchsorted :: "int list \<Rightarrow> nat list \<Rightarrow> int \<Rightarrow> nat" where
  "searchsorted pixels st q = length (takeWhile (\<lambda>i. pixels ! i < q) st)"

text \<open>
  One raster cell, from \<^verbatim>\<open>searchsorted\<close> to the assignment of the value: \<open>clamp\<close> is
  the test \<^verbatim>\<open>pix_raster.max() > pixels.max()\<close>; the result is \<open>None\<close> for a cell that
  stays masked and the stored value otherwise.
\<close>

definition lookup_cell ::
  "int list \<Rightarrow> real list \<Rightarrow> nat list \<Rightarrow> bool \<Rightarrow> int \<Rightarrow> error + real option" where
  "lookup_cell pixels vals st clamp q =
     (let s1 = searchsorted pixels st q;
          s1' = (if clamp \<and> s1 = length pixels then length pixels - 1 else s1)
      in if s1' < length st then
           (if pixels ! (st ! s1') = q then
              (if st ! s1' < length vals then Inr (Some (vals ! (st ! s1'))) else Inl IndexError)
            else Inr None)
         else Inl IndexError)"

definition healpix_to_xy ::
  "hpgeom \<Rightarrow> nat \<Rightarrow> int list \<Rightarrow> real list \<Rightarrow> real \<times> real \<Rightarrow> real \<times> real \<Rightarrow> bool \<Rightarrow> int \<Rightarrow> real \<Rightarrow>
   error + (real arr2 \<times> real arr2 \<times> real masked)" where
  "healpix_to_xy hp nside pixels vals lon_range lat_range nest xsize aspect =
     (if length (remdups pixels) \<noteq> length pixels then Inl NotUniqueError
      else
        case make_mesh lon_range lat_range xsize aspect of
          Inl e \<Rightarrow> Inl e
        | Inr (lon_raster, lat_raster) \<Rightarrow>
            (let clon = centers lon_raster;
                 clat = centers lat_raster;
                 pix_raster = map2_arr (angle_to_pixel hp nside nest) clon clat;
                 st = argsort pixels
             in if ravel pix_raster = [] \<or> pixels = [] then Inl EmptyReductionError
                else
                  (let clamp = (Max (set (ravel pix_raster)) > Max (set pixels))
                   in case mapE_arr (lookup_cell pixels vals st clamp) pix_raster of
                        Inl e \<Rightarrow> Inl e
                      | Inr found \<Rightarrow>
                          Inr (lon_raster, lat_raster,
                               \<lparr>ma_data = map_arr (\<lambda>r. case r of None \<Rightarrow> 0 | Some v \<Rightarrow> v) found,
                                ma_mask = map_arr (\<lambda>r. r = None) found\<rparr>))))"

subsection \<open>healpix_bin\<close>

text \<open>\<^verbatim>\<open>np.add.at(a, idx, vs)\<close>: one addition per index, in order, so that a repeated index
  accumulates.\<close>

fun add_at :: "'a::plus list \<Rightarrow> int list \<Rightarrow> 'a list \<Rightarrow> error + 'a list" where
  "add_at a [] vs = Inr a"
| "add_at a (p # ps) [] = Inl ShapeError"
| "add_at a (p # ps) (v # vs) =
     (case norm_index (length a) p of
        None \<Rightarrow> Inl IndexError
      | Some k \<Rightarrow> add_at (a[k := a ! k + v]) ps vs)"

text \<open>The values that \<^verbatim>\<open>np.add.at\<close> adds: a scalar or a one-element array is
  broadcast, an array of another length than the indices is refused.\<close>

definition broadcast_to :: "nat \<Rightarrow> 'a list \<Rightarrow> error + 'a list" where
  "broadcast_to n vs =
     (if length vs = n then Inr vs
      else if length vs = 1 then Inr (replicate n (hd vs))
      else Inl ShapeError)"

text \<open>
  \<^verbatim>\<open>healpix_bin(lon, lat, C, nside, nest)\<close>, for \<open>lon\<close> and \<open>lat\<close> of one length. The
  counts are \<^verbatim>\<open>np.int32\<close>, a 32-bit word read as a signed number by the comparison
  \<^verbatim>\<open>count > 0\<close> and by the conversion to float.
\<close>

definition healpix_bin ::
  "hpgeom \<Rightarrow> real list \<Rightarrow> real list \<Rightarrow> real list option \<Rightarrow> nat \<Rightarrow> bool \<Rightarrow> error + real list" where
  "healpix_bin hp lon lat C nside nest =
     (if length lon \<noteq> length lat then Inl ShapeError
      else
        let pix = map2 (angle_to_pixel hp nside nest) lon lat;
            npix = nside_to_npixel hp nside
        in case add_at (replicate npix (0 :: 32 word)) pix (replicate (length pix) 1) of
             Inl e \<Rightarrow> Inl e
           | Inr count \<Rightarrow>
               (let good = map (\<lambda>c. sint c > 0) count
                in case C of
                     Some cs \<Rightarrow>
                       (case broadcast_to (length pix) cs of
                          Inl e \<Rightarrow> Inl e
                        | Inr cs' \<Rightarrow>
                            (case add_at (replicate npix (0 :: real)) pix cs' of
                               Inl e \<Rightarrow> Inl e
                             | Inr tot \<Rightarrow>
                                 Inr (map (\<lambda>i. if good ! i then tot ! i / real_of_int (sint (count ! i))
                                                else UNSEEN) [0..<npix])))
                   | None \<Rightarrow>
                       Inr (map (\<lambda>i. if good ! i then real_of_int (sint (count ! i)) else UNSEEN)
                                [0..<npix])))"

section \<open>The grid engine\<close>

subsection \<open>Gridline counts\<close>

text \<open>The extent is \<^verbatim>\<open>[lon_min, lon_max, lat_min, lat_max]\<close>.\<close>

type_synonym extent = "real \<times> real \<times> real \<times> real"

text \<open>
  The \<^verbatim>\<open>ratio\<close> of \<^verbatim>\<open>_compute_n_grid_from_extent\<close>. The division is a float64 division:
  a zero denominator gives an infinity (clipped to the nearer bound) or, for 0/0, a NaN,
  which is \<open>None\<close> here.
\<close>

definition grid_ratio :: "extent \<Rightarrow> real option" where
  "grid_ratio ext =
     (case ext of (e0, e1, e2, e3) \<Rightarrow>
        let latscale = cos (deg2rad ((e2 + e3) / 2));
            num = \<bar>e1 - e0\<bar> * latscale;
            den = e3 - e2
        in if den \<noteq> 0 then Some (clip (num / den) (1 / 3) (5 / 3))
           else if 0 < num then Some (5 / 3)
           else if num < 0 then Some (1 / 3)
           else None)"

text \<open>
  \<^verbatim>\<open>_compute_n_grid_from_extent(extent, n_grid_lat_default, n_grid_lon_default)\<close>. The
  locals \<^verbatim>\<open>n_grid_lat\<close> and \<^verbatim>\<open>n_grid_lon\<close> are assigned only under the two \<^verbatim>\<open>if\<close>s;
  a local that was never assigned is \<open>None\<close>, and reading it raises.
\<close>

definition compute_n_grid_from_extent ::
  "extent \<Rightarrow> int option \<Rightarrow> int option \<Rightarrow> error + (int \<times> int)" where
  "compute_n_grid_from_extent ext n_grid_lat_default n_grid_lon_default =
     (let n_grid_lat = (if n_grid_lat_default = None then Some (6::int) else None);
          n_grid_lon =
            (if n_grid_lon_default = None then
               (case n_grid_lat of
                  None \<Rightarrow> Inl UnboundLocalError
                | Some nlat \<Rightarrow>
                    (case grid_ratio ext of
                       None \<Rightarrow> Inl NanToIntError
                     | Some ratio \<Rightarrow> Inr (Some \<lceil>ratio * real_of_int nlat\<rceil>)))
             else Inr None)
      in case n_grid_lon of
           Inl e \<Rightarrow> Inl e
         | Inr None \<Rightarrow> Inl UnboundLocalError
         | Inr (Some nlon) \<Rightarrow>
             (case n_grid_lat of
                None \<Rightarrow> Inl UnboundLocalError
              | Some nlat \<Rightarrow> Inr (nlon, nlat)))"

subsection \<open>Grid information\<close>

text \<open>
  The collaborators of the helper: the extreme finder (already applied to the inverse
  transform), the class \<^verbatim>\<open>angle_helper.LocatorD\<close> (its constructor arguments first, then
  the call), and the forward transform on a polyline. Each of them may raise.
\<close>

record collab =
  extreme_finder :: "real \<Rightarrow> real \<Rightarrow> real \<Rightarrow> real \<Rightarrow> error + extent"
  locatorD :: "int \<Rightarrow> bool \<Rightarrow> real \<Rightarrow> real \<Rightarrow> error + (real list \<times> nat \<times> real)"
  transform_xy :: "real list \<Rightarrow> real list \<Rightarrow> error + (real list \<times> real list)"

record tick =
  level :: real
  loc :: "point \<times> real"
  label :: string

record axis_info =
  lines :: "(real list \<times> real list) list list"
  ticks_left :: "tick list"
  ticks_right :: "tick list"
  ticks_bottom :: "tick list"
  ticks_top :: "tick list"

record grid_info =
  extremes :: extent
  gi_lon :: axis_info
  gi_lat :: axis_info

text \<open>\<^verbatim>\<open>_get_raw_grid_lines\<close>\<close>

definition get_raw_grid_lines ::
  "collab \<Rightarrow> real list \<Rightarrow> real list \<Rightarrow> real \<Rightarrow> real \<Rightarrow> real \<Rightarrow> real \<Rightarrow>
   error + ((real list \<times> real list) list \<times> (real list \<times> real list) list)" where
  "get_raw_grid_lines c lon_values lat_values lon_min lon_max lat_min lat_max =
     (let lons_i = linspace lon_min lon_max 100;
          lats_i = linspace lat_min lat_max 100
      in case mapE (\<lambda>lon. transform_xy c (map (\<lambda>_. lon) lats_i) lats_i) lon_values of
           Inl e \<Rightarrow> Inl e
         | Inr lon_lines \<Rightarrow>
             (case mapE (\<lambda>lat. transform_xy c lons_i (map (\<lambda>_. lat) lons_i)) lat_values of
                Inl e \<Rightarrow> Inl e
              | Inr lat_lines \<Rightarrow> Inr (lon_lines, lat_lines)))"

text \<open>\<^verbatim>\<open>Bbox.expanded(sw, sh)\<close>\<close>

definition expanded :: "Bbox \<Rightarrow> real \<Rightarrow> real \<Rightarrow> Bbox" where
  "expanded b sw sh =
     (let width = bx1 b - bx0 b; height = by1 b - by0 b;
          deltaw = (sw * width - width) / 2; deltah = (sh * height - height) / 2
      in \<lparr>bx0 = bx0 b - deltaw, by0 = by0 b - deltah, bx1 = bx1 b + deltaw, by1 = by1 b + deltah\<rparr>)"

text \<open>
  The ticks of one axis: every line is paired with its level
  (\<^verbatim>\<open>zip(lines, values, levs)\<close>), and each crossing is filed under its side with the
  placeholder label.
\<close>

definition side_ticks ::
  "Bbox \<Rightarrow> (real list \<times> real list) list \<Rightarrow> real list \<Rightarrow> real list \<Rightarrow> nat \<Rightarrow> tick list" where
  "side_ticks bb lns vals levs side =
     concat (map (\<lambda>((lx, ly), v, lev).
                    map (\<lambda>crossing. \<lparr>level = lev, loc = crossing, label = ''lab''\<rparr>)
                        (find_line_box_crossings (zip lx ly) bb ! side))
                 (zip lns (zip vals levs)))"

definition make_axis_info ::
  "Bbox \<Rightarrow> (real list \<times> real list) list \<Rightarrow> real list \<Rightarrow> real list \<Rightarrow> axis_info" where
  "make_axis_info bb lns vals levs =
     \<lparr>lines = map (\<lambda>l. [l]) lns,
      ticks_left = side_ticks bb lns vals levs 0,
      ticks_right = side_ticks bb lns vals levs 1,
      ticks_bottom = side_ticks bb lns vals levs 2,
      ticks_top = side_ticks bb lns vals levs 3\<rparr>"

text \<open>\<^verbatim>\<open>get_grid_info\<close>, with the two locators that \<^verbatim>\<open>update_lim\<close> has just installed.\<close>

definition get_grid_info ::
  "collab \<Rightarrow> (int \<times> bool) \<Rightarrow> (int \<times> bool) \<Rightarrow> real \<Rightarrow> real \<Rightarrow> real \<Rightarrow> real \<Rightarrow> error + grid_info" where
  "get_grid_info c loc_lon loc_lat x1 y1 x2 y2 =
     (case extreme_finder c x1 y1 x2 y2 of
        Inl e \<Rightarrow> Inl e
      | Inr (lon_min, lon_max, lat_min, lat_max) \<Rightarrow>
     (case locatorD c (fst loc_lon) (snd loc_lon) lon_min lon_max of
        Inl e \<Rightarrow> Inl e
      | Inr (lon_levs, lon_n, lon_factor) \<Rightarrow>
     (case locatorD c (fst loc_lat) (snd loc_lat) lat_min lat_max of
        Inl e \<Rightarrow> Inl e
      | Inr (lat_levs, lat_n, lat_factor) \<Rightarrow>
     (let lon_values = map (\<lambda>l. l / lon_factor) (take lon_n lon_levs);
          lat_values = map (\<lambda>l. l / lat_factor) (take lat_n lat_levs)
      in case get_raw_grid_lines c lon_values lat_values lon_min lon_max lat_min lat_max of
           Inl e \<Rightarrow> Inl e
         | Inr (lon_lines, lat_lines) \<Rightarrow>
             (let bb = expanded \<lparr>bx0 = x1, by0 = y1, bx1 = x2, by1 = y2\<rparr>
                         (1 + 2 / 10 ^ 10) (1 + 2 / 10 ^ 10)
              in Inr \<lparr>extremes = (lon_min, lon_max, lat_min, lat_max),
                      gi_lon = make_axis_info bb lon_lines lon_values lon_levs,
                      gi_lat = make_axis_info bb lat_lines lat_values lat_levs\<rparr>)))))"

subsection \<open>The helper object\<close>

record projection =
  name :: string
  radius :: real

text \<open>What the helper reads from the matplotlib axis.\<close>

record axis_view =
  xlim :: "real \<times> real"
  ylim :: "real \<times> real"
  get_extent :: extent

text \<open>The fields of \<^verbatim>\<open>SkyGridHelper\<close> that its methods read or write.\<close>

record SkyGridHelper =
  h_wrap :: real
  h_n_grid_lon_default :: "int option"
  h_n_grid_lat_default :: "int option"
  h_full_circle :: bool
  h_delta_cut :: real
  h_grid_locator_lon :: "(int \<times> bool) option"
  h_grid_locator_lat :: "(int \<times> bool) option"
  h_grid_info :: "grid_info option"
  h_old_limits :: "(real \<times> real \<times> real \<times> real) option"

text \<open>
  \<^verbatim>\<open>update_lim\<close>. The object outlives an exception, so the result is the object as the
  exception leaves it, with the exception if there was one: the two locators are
  assigned before \<^verbatim>\<open>_update_grid\<close> runs, the grid information and the limits after.
\<close>

definition update_lim :: "collab \<Rightarrow> SkyGridHelper \<Rightarrow> axis_view \<Rightarrow> SkyGridHelper \<times> error option" where
  "update_lim c self ax =
     (case xlim ax of (x1, x2) \<Rightarrow> case ylim ax of (y1, y2) \<Rightarrow>
      if h_old_limits self \<noteq> Some (x1, x2, y1, y2) then
        (case compute_n_grid_from_extent (get_extent ax)
                (h_n_grid_lat_default self) (h_n_grid_lon_default self) of
           Inl e \<Rightarrow> (self, Some e)
         | Inr (n_grid_lon, n_grid_lat) \<Rightarrow>
             (let include_last_lon = (h_wrap self = 180 \<and> \<not> h_full_circle self);
                  self1 = self\<lparr>h_grid_locator_lon := Some (n_grid_lon, include_last_lon),
                               h_grid_locator_lat := Some (n_grid_lat, True)\<rparr>
              in case get_grid_info c (n_grid_lon, include_last_lon) (n_grid_lat, True) x1 y1 x2 y2 of
                   Inl e \<Rightarrow> (self1, Some e)
                 | Inr gi \<Rightarrow>
                     (self1\<lparr>h_grid_info := Some gi, h_old_limits := Some (x1, x2, y1, y2)\<rparr>, None)))
      else (self, None))"

text \<open>\<^verbatim>\<open>__init__\<close>: an exception of the first \<^verbatim>\<open>update_lim\<close> leaves no object.\<close>

definition init ::
  "collab \<Rightarrow> axis_view \<Rightarrow> projection \<Rightarrow> real \<Rightarrow> int option \<Rightarrow> int option \<Rightarrow> bool \<Rightarrow>
   error + SkyGridHelper" where
  "init c ax proj wrap n_grid_lon_default n_grid_lat_default full_circle =
     (let self = \<lparr>h_wrap = wrap,
                  h_n_grid_lon_default = n_grid_lon_default,
                  h_n_grid_lat_default = n_grid_lat_default,
                  h_full_circle = full_circle,
                  h_delta_cut = (if name proj = ''cyl'' then 80 else 0.5 * radius proj),
                  h_grid_locator_lon = None,
                  h_grid_locator_lat = None,
                  h_grid_info = None,
                  h_old_limits = None\<rparr>
      in case update_lim c self ax of
           (self', None) \<Rightarrow> Inr self'
         | (_, Some e) \<Rightarrow> Inl e)"

text \<open>\<^verbatim>\<open>np.hypot(dx, dy) > delta_cut\<close> at the nonzero positions.\<close>

definition jump_idxs :: "real \<Rightarrow> real list \<Rightarrow> real list \<Rightarrow> nat list" where
  "jump_idxs dcut xs ys =
     (let dx = diffs xs; dy = diffs ys
      in filter (\<lambda>i. sqrt ((dx ! i)\<^sup>2 + (dy ! i)\<^sup>2) > dcut) [0..<min (length dx) (length dy)])"

text \<open>\<^verbatim>\<open>np.insert(a, split + 1, np.nan)\<close>: a NaN (\<open>None\<close>) after every element whose index is
  in \<open>split\<close>.\<close>

definition insert_nan :: "real list \<Rightarrow> nat list \<Rightarrow> real option list" where
  "insert_nan a split =
     concat (map (\<lambda>i. if i \<in> set split then [Some (a ! i), None] else [Some (a ! i)]) [0..<length a])"

text \<open>\<^verbatim>\<open>_cut_grid_line_jumps\<close>; a gridline is a list holding one pair of coordinate arrays.\<close>

definition cut_grid_line_jumps ::
  "SkyGridHelper \<Rightarrow> (real list \<times> real list) list \<Rightarrow>
   error + (real option list \<times> real option list) list" where
  "cut_grid_line_jumps self gl =
     (case gl of
        [] \<Rightarrow> Inl IndexError
      | g # _ \<Rightarrow>
          (let split = jump_idxs (h_delta_cut self) (fst g) (snd g)
           in if split = [] then Inr (map (\<lambda>(xs, ys). (map Some xs, map Some ys)) gl)
              else Inr [(insert_nan (fst g) split, insert_nan (snd g) split)]))"

text \<open>\<^verbatim>\<open>get_gridlines(axis)\<close>\<close>

definition get_gridlines ::
  "SkyGridHelper \<Rightarrow> string \<Rightarrow> error + (real option list \<times> real option list) list" where
  "get_gridlines self axis =
     (case h_grid_info self of
        None \<Rightarrow> Inl NotInitializedError
      | Some gi \<Rightarrow>
          (case (if axis \<in> set [''both'', ''x'']
                 then mapE (cut_grid_line_jumps self) (lines (gi_lon gi)) else Inr []) of
             Inl e \<Rightarrow> Inl e
           | Inr xl \<Rightarrow>
               (case (if axis \<in> set [''both'', ''y'']
                      then mapE (cut_grid_line_jumps self) (lines (gi_lat gi)) else Inr []) of
                  Inl e \<Rightarrow> Inl e
                | Inr yl \<Rightarrow> Inr (concat xl @ concat yl))))"

text \<open>
  The helper objects a client can hold: the result of a successful construction, and
  whatever later calls of \<^verbatim>\<open>update_lim\<close> make of it, whether they raise or not.
\<close>

inductive reachable :: "collab \<Rightarrow> SkyGridHelper \<Rightarrow> bool" for c :: collab where
  constructed:
    "init c ax proj wrap n_lon n_lat full_circle = Inr self \<Longrightarrow> reachable c self"
| updated:
    "reachable c self \<Longrightarrow> update_lim c self ax = (self', r) \<Longrightarrow> reachable c self'"

section \<open>Vocabulary of the properties\<close>

text \<open>The mesh of a rasterizer called with \<open>xsize\<close> and \<open>aspect\<close>: \<^verbatim>\<open>int(aspect*xsize)\<close>
  rows of \<open>xsize\<close> nodes.\<close>

definition mesh_shape :: "int \<Rightarrow> real \<Rightarrow> 'a arr2 \<Rightarrow> bool" where
  "mesh_shape xsize aspect g =
     (wf_arr g \<and> int (nrows g) = py_int (aspect * real_of_int xsize) \<and> int (ncols g) = xsize)"

text \<open>A raster over the mesh \<open>g\<close>: one row and one column fewer, none where the mesh
  has none.\<close>

definition raster_shape :: "'a arr2 \<Rightarrow> 'b arr2 \<Rightarrow> bool" where
  "raster_shape g v = (wf_arr v \<and> nrows v = nrows g - 1 \<and> ncols v = ncols g - 1)"

text \<open>The number of samples that land in pixel \<open>p\<close>, and the sum of their values.\<close>

definition hits :: "nat \<Rightarrow> int list \<Rightarrow> nat \<Rightarrow> nat" where
  "hits npix pix p = length (filter (\<lambda>q. norm_index npix q = Some p) pix)"

definition hit_sum :: "nat \<Rightarrow> int list \<Rightarrow> real list \<Rightarrow> nat \<Rightarrow> real" where
  "hit_sum npix pix cs p =
     sum_list (map snd (filter (\<lambda>(q, v). norm_index npix q = Some p) (zip pix cs)))"

text \<open>
  The intermediate values of \<^verbatim>\<open>healpix_pixels_range\<close> by their names in the source: the
  centres \<^verbatim>\<open>lon\<close> and \<^verbatim>\<open>lat\<close>, \<^verbatim>\<open>eps_lon\<close>, the longitude bound \<^verbatim>\<open>lon_range\<close> as it is
  before the check for the full range, and \<^verbatim>\<open>lat_range\<close>.
\<close>

definition pix_lon :: "hpgeom \<Rightarrow> nat \<Rightarrow> bool \<Rightarrow> int list \<Rightarrow> real list" where
  "pix_lon hp nside nest pixels = map (\<lambda>p. fst (pixel_to_angle hp nside nest p)) pixels"

definition pix_lat :: "hpgeom \<Rightarrow> nat \<Rightarrow> bool \<Rightarrow> int list \<Rightarrow> real list" where
  "pix_lat hp nside nest pixels = map (\<lambda>p. snd (pixel_to_angle hp nside nest p)) pixels"

definition eps_lon :: "hpgeom \<Rightarrow> nat \<Rightarrow> bool \<Rightarrow> int list \<Rightarrow> real" where
  "eps_lon hp nside nest pixels =
     max_pixel_radius hp nside / cos (deg2rad (median (pix_lat hp nside nest pixels)))"

definition lon_bound :: "hpgeom \<Rightarrow> nat \<Rightarrow> int list \<Rightarrow> real \<Rightarrow> bool \<Rightarrow> real \<times> real" where
  "lon_bound hp nside pixels wrap nest =
     (list_min (lon_wrap wrap (pix_lon hp nside nest pixels)) - eps_lon hp nside nest pixels,
      list_max (lon_wrap wrap (pix_lon hp nside nest pixels)) + eps_lon hp nside nest pixels)"

definition lat_bound :: "hpgeom \<Rightarrow> nat \<Rightarrow> int list \<Rightarrow> bool \<Rightarrow> real \<times> real" where
  "lat_bound hp nside pixels nest =
     (max (list_min (pix_lat hp nside nest pixels) - max_pixel_radius hp nside) (- 90 + 1 / 10 ^ 5),
      min (list_max (pix_lat hp nside nest pixels) + max_pixel_radius hp nside) (90 - 1 / 10 ^ 5))"

text \<open>The spread of a list of longitudes, and the width of a range.\<close>

definition spread :: "real list \<Rightarrow> real" where
  "spread xs = list_max xs - list_min xs"

definition width :: "real \<times> real \<Rightarrow> real" where
  "width r = snd r - fst r"

section \<open>Concrete settings\<close>

text \<open>A stand-in for the pixelization: pixel \<open>p\<close> lies at longitude \<open>p\<close> on the equator,
  and a position belongs to the pixel \<open>\<lfloor>4 \<cdot> lon\<rfloor>\<close>.\<close>

definition hp0 :: hpgeom where
  "hp0 =
     \<lparr>pixel_to_angle = (\<lambda>nside nest p. (real_of_int p, 0)),
      angle_to_pixel = (\<lambda>nside nest lon lat. \<lfloor>4 * lon\<rfloor>),
      max_pixel_radius = (\<lambda>nside. 1),
      npixel_to_nside = (\<lambda>n. Inr 1),
      nside_to_npixel = (\<lambda>nside. 12 * nside * nside)\<rparr>"

text \<open>The two end pixels of the equatorial ring at resolution \<open>2\<^sup>2\<^sup>4 = 16777216\<close>, whose
  centres lie \<open>45 / 2\<^sup>2\<^sup>4\<close> degrees to either side of the meridian of longitude 0; they
  are numbered 0 and 1 here, and \<open>10\<^sup>-\<^sup>5\<close> degrees stands for the pixel radius.\<close>

definition hp1 :: hpgeom where
  "hp1 =
     \<lparr>pixel_to_angle = (\<lambda>nside nest p. (if p = 0 then 45 / 16777216 else 360 - 45 / 16777216, 0)),
      angle_to_pixel = (\<lambda>nside nest lon lat. 0),
      max_pixel_radius = (\<lambda>nside. 1 / 10 ^ 5),
      npixel_to_nside = (\<lambda>n. Inr 16777216),
      nside_to_npixel = (\<lambda>nside. 12 * nside * nside)\<rparr>"

text \<open>A sparse map whose value at a position is its longitude.\<close>

definition hspmap0 :: hspmap where
  "hspmap0 =
     \<lparr>is_wide_mask_map = False, sentinel = NumV (Finite UNSEEN),
      get_values_pos = (\<lambda>valid_mask lon lat. NumV (Finite lon))\<rparr>"

text \<open>A small projection-free setting: the identity as the forward transform, one
  level per axis, and a viewport over the unit square.\<close>

definition collab0 :: collab where
  "collab0 =
     \<lparr>extreme_finder = (\<lambda>x1 y1 x2 y2. Inr (0, 1, - 1, 1)),
      locatorD = (\<lambda>n include_last lo hi. Inr ([0], 1, 1)),
      transform_xy = (\<lambda>lon lat. Inr (lon, lat))\<rparr>"

definition axis0 :: axis_view where
  "axis0 = \<lparr>xlim = (0, 1), ylim = (- 1, 1), get_extent = (0, 1, - 1, 1)\<rparr>"

section \<open>Arrays and fallible maps\<close>


lemma mapE_Inr:
  "mapE f xs = Inr ys \<Longrightarrow> length ys = length xs \<and> (\<forall>i < length xs. f (xs ! i) = Inr (ys ! i))"
proof (induction xs arbitrary: ys)
  case Nil
  then show ?case by simp
next
  case (Cons x xs)
  then obtain y ys' where y: "f x = Inr y" and ys': "mapE f xs = Inr ys'" and e: "ys = y # ys'"
    by (auto split: sum.splits)
  from Cons.IH [OF ys'] y e show ?case
    by (auto simp: nth_Cons split: nat.splits)
qed

lemma mapE_Inl:
  "mapE f xs = Inl e \<Longrightarrow> \<exists>x \<in> set xs. f x = Inl e"
  by (induction xs) (auto split: sum.splits)

lemma mapE_total:
  "(\<And>x. x \<in> set xs \<Longrightarrow> \<exists>y. f x = Inr y) \<Longrightarrow> \<exists>ys. mapE f xs = Inr ys"
proof (induction xs)
  case Nil
  show ?case by simp
next
  case (Cons x xs)
  then obtain y where "f x = Inr y" by fastforce
  moreover from Cons obtain ys where "mapE f xs = Inr ys" by fastforce
  ultimately show ?case by simp
qed

lemma mapE_arr_Inr:
  assumes "mapE_arr f g = Inr h" and "wf_arr g"
  shows "nrows h = nrows g" "ncols h = ncols g" "wf_arr h"
    "\<And>i j. i < nrows g \<Longrightarrow> j < ncols g \<Longrightarrow> f (cells g ! i ! j) = Inr (cells h ! i ! j)"
proof -
  from assms(1) obtain rs where rs: "mapE (mapE f) (cells g) = Inr rs"
    and h: "h = \<lparr>nrows = nrows g, ncols = ncols g, cells = rs\<rparr>"
    by (auto simp: mapE_arr_def split: sum.splits)
  from h show "nrows h = nrows g" "ncols h = ncols g" by simp_all
  note R = mapE_Inr [OF rs]
  have row: "mapE f (cells g ! i) = Inr (rs ! i)" if "i < nrows g" for i
    using R that assms(2) by (simp add: wf_arr_def)
  have len: "length (rs ! i) = ncols g" if "i < nrows g" for i
    using mapE_Inr [OF row [OF that]] assms(2) that by (simp add: wf_arr_def)
  show "wf_arr h"
    using R len assms(2) h by (auto simp: wf_arr_def)
  show "f (cells g ! i ! j) = Inr (cells h ! i ! j)" if "i < nrows g" "j < ncols g" for i j
    using mapE_Inr [OF row [OF that(1)]] that assms(2) h by (simp add: wf_arr_def)
qed

lemma length_linspace [simp]: "length (linspace a b n) = n"
  by (simp add: linspace_def)

lemma wf_meshgrid:
  "wf_arr (fst (meshgrid xs ys))" "wf_arr (snd (meshgrid xs ys))"
  by (auto simp: meshgrid_def wf_arr_def)

lemma make_mesh_Inr:
  assumes "make_mesh lon_range lat_range xsize aspect = Inr (lr, tr)"
  shows "0 \<le> xsize" "0 \<le> py_int (aspect * real_of_int xsize)"
    "nrows lr = nat (py_int (aspect * real_of_int xsize))" "ncols lr = nat xsize"
    "nrows tr = nrows lr" "ncols tr = ncols lr" "wf_arr lr" "wf_arr tr"
  using assms
  by (auto simp: make_mesh_def Let_def meshgrid_def wf_arr_def split: if_splits)

lemma make_mesh_total:
  assumes "0 \<le> xsize" "0 \<le> py_int (aspect * real_of_int xsize)"
  shows "\<exists>lr tr. make_mesh lon_range lat_range xsize aspect = Inr (lr, tr)"
  using assms by (simp add: make_mesh_def Let_def meshgrid_def)

lemma wf_centers:
  assumes "wf_arr g"
  shows "wf_arr (centers g)"
  using assms
  by (auto simp: centers_def wf_arr_def nth_tl nth_butlast)

lemma shape_centers [simp]: "nrows (centers g) = nrows g - 1" "ncols (centers g) = ncols g - 1"
  by (simp_all add: centers_def)

lemma shape_map_arr [simp]: "nrows (map_arr f g) = nrows g" "ncols (map_arr f g) = ncols g"
  by (simp_all add: map_arr_def)

lemma shape_map2_arr [simp]: "nrows (map2_arr f g h) = nrows g" "ncols (map2_arr f g h) = ncols g"
  by (simp_all add: map2_arr_def)

lemma wf_map_arr: "wf_arr g \<Longrightarrow> wf_arr (map_arr f g)"
  by (auto simp: wf_arr_def map_arr_def)

lemma wf_map2_arr:
  assumes "wf_arr g" "wf_arr h" "nrows h = nrows g" "ncols h = ncols g"
  shows "wf_arr (map2_arr f g h)"
  using assms
  by (auto simp: wf_arr_def map2_arr_def)

lemma cells_map_arr:
  assumes "wf_arr g" "i < nrows g" "j < ncols g"
  shows "cells (map_arr f g) ! i ! j = f (cells g ! i ! j)"
  using assms by (simp add: wf_arr_def map_arr_def)

lemma cells_map2_arr:
  assumes "wf_arr g" "wf_arr h" "nrows h = nrows g" "ncols h = ncols g" "i < nrows g" "j < ncols g"
  shows "cells (map2_arr f g h) ! i ! j = f (cells g ! i ! j) (cells h ! i ! j)"
  using assms by (simp add: wf_arr_def map2_arr_def)


lemma make_mesh_shape:
  assumes "make_mesh lon_range lat_range xsize aspect = Inr (lr, tr)"
  shows "mesh_shape xsize aspect lr" "mesh_shape xsize aspect tr"
  using make_mesh_Inr [OF assms] by (simp_all add: mesh_shape_def)

lemma hspmap_to_xy_shape:
  assumes "hspmap_to_xy m lon_range lat_range xsize aspect vm = Inr (lr, tr, ma)"
  shows "mesh_shape xsize aspect lr \<and> mesh_shape xsize aspect tr
    \<and> raster_shape lr (ma_data ma) \<and> raster_shape lr (ma_mask ma)"
proof -
  from assms obtain m1: "make_mesh lon_range lat_range xsize aspect = Inr (lr, tr)"
    and ma: "ma = \<lparr>ma_data = map_arr (\<lambda>v. fst (hsp_cell m v))
                      (map2_arr (get_values_pos m vm) (centers lr) (centers tr)),
                   ma_mask = map_arr (\<lambda>v. snd (hsp_cell m v))
                      (map2_arr (get_values_pos m vm) (centers lr) (centers tr))\<rparr>"
    by (auto simp: hspmap_to_xy_def Let_def split: sum.splits)
  note M = make_mesh_Inr [OF m1]
  have "wf_arr (map2_arr (get_values_pos m vm) (centers lr) (centers tr))"
    using M by (intro wf_map2_arr wf_centers) simp_all
  then show ?thesis
    using make_mesh_shape [OF m1] ma by (simp add: raster_shape_def wf_map_arr)
qed

lemma hpxmap_to_xy_parts:
  assumes "hpxmap_to_xy hp hpxmap lon_range lat_range nest xsize aspect = Inr (lr, tr, ma)"
  obtains nside where "make_mesh lon_range lat_range xsize aspect = Inr (lr, tr)"
    and "npixel_to_nside hp (length hpxmap) = Inr nside"
    and "mapE_arr (np_index hpxmap)
           (map2_arr (angle_to_pixel hp nside nest) (centers lr) (centers tr)) = Inr (ma_data ma)"
    and "ma_mask ma = map_arr (\<lambda>v. isclose v UNSEEN \<or> isnan v) (ma_data ma)"
  using assms by (auto simp: hpxmap_to_xy_def Let_def split: sum.splits)

lemma hpxmap_to_xy_shape:
  assumes "hpxmap_to_xy hp hpxmap lon_range lat_range nest xsize aspect = Inr (lr, tr, ma)"
  shows "mesh_shape xsize aspect lr \<and> mesh_shape xsize aspect tr
    \<and> raster_shape lr (ma_data ma) \<and> raster_shape lr (ma_mask ma)"
proof -
  from assms obtain nside where m1: "make_mesh lon_range lat_range xsize aspect = Inr (lr, tr)"
    and v: "mapE_arr (np_index hpxmap)
           (map2_arr (angle_to_pixel hp nside nest) (centers lr) (centers tr)) = Inr (ma_data ma)"
    and k: "ma_mask ma = map_arr (\<lambda>v. isclose v UNSEEN \<or> isnan v) (ma_data ma)"
    by (rule hpxmap_to_xy_parts)
  note M = make_mesh_Inr [OF m1]
  have w: "wf_arr (map2_arr (angle_to_pixel hp nside nest) (centers lr) (centers tr))"
    using M by (intro wf_map2_arr wf_centers) simp_all
  from mapE_arr_Inr(1-3) [OF v w] show ?thesis
    using make_mesh_shape [OF m1] k by (simp add: raster_shape_def wf_map_arr)
qed

lemma healpix_to_xy_parts:
  assumes "healpix_to_xy hp nside pixels vals lon_range lat_range nest xsize aspect = Inr (lr, tr, ma)"
  obtains found where "length (remdups pixels) = length pixels"
    and "make_mesh lon_range lat_range xsize aspect = Inr (lr, tr)"
    and "ravel (map2_arr (angle_to_pixel hp nside nest) (centers lr) (centers tr)) \<noteq> []"
    and "pixels \<noteq> []"
    and "mapE_arr (lookup_cell pixels vals (argsort pixels)
             (Max (set (ravel (map2_arr (angle_to_pixel hp nside nest) (centers lr) (centers tr))))
                > Max (set pixels)))
           (map2_arr (angle_to_pixel hp nside nest) (centers lr) (centers tr)) = Inr found"
    and "ma_data ma = map_arr (\<lambda>r. case r of None \<Rightarrow> 0 | Some v \<Rightarrow> v) found"
    and "ma_mask ma = map_arr (\<lambda>r. r = None) found"
  using assms by (auto simp: healpix_to_xy_def Let_def split: sum.splits if_splits)

lemma healpix_to_xy_shape:
  assumes "healpix_to_xy hp nside pixels vals lon_range lat_range nest xsize aspect = Inr (lr, tr, ma)"
  shows "mesh_shape xsize aspect lr \<and> mesh_shape xsize aspect tr
    \<and> raster_shape lr (ma_data ma) \<and> raster_shape lr (ma_mask ma)"
proof -
  from assms obtain found where m1: "make_mesh lon_range lat_range xsize aspect = Inr (lr, tr)"
    and v: "mapE_arr (lookup_cell pixels vals (argsort pixels)
             (Max (set (ravel (map2_arr (angle_to_pixel hp nside nest) (centers lr) (centers tr))))
                > Max (set pixels)))
           (map2_arr (angle_to_pixel hp nside nest) (centers lr) (centers tr)) = Inr found"
    and d: "ma_data ma = map_arr (\<lambda>r. case r of None \<Rightarrow> 0 | Some v \<Rightarrow> v) found"
    and k: "ma_mask ma = map_arr (\<lambda>r. r = None) found"
    by (rule healpix_to_xy_parts)
  note M = make_mesh_Inr [OF m1]
  have w: "wf_arr (map2_arr (angle_to_pixel hp nside nest) (centers lr) (centers tr))"
    using M by (intro wf_map2_arr wf_centers) simp_all
  from mapE_arr_Inr(1-3) [OF v w] show ?thesis
    using make_mesh_shape [OF m1] d k by (simp add: raster_shape_def wf_map_arr)
qed

section \<open>Properties of the rasterizers\<close>

text \<open>
  Claim C6, amended. Whenever one of the three rasterizers returns, its two mesh arrays
  have \<^verbatim>\<open>int(aspect*xsize)\<close> rows (the product truncated towards zero, not rounded)
  and \<open>xsize\<close> columns, and the values and the mask have one row and one column fewer
  than the mesh, and none where the mesh has none.
\<close>

theorem rasterizers_mesh_and_raster_shape:
  "(hspmap_to_xy m lon_range lat_range xsize aspect vm = Inr (lr1, tr1, ma1) \<longrightarrow>
      mesh_shape xsize aspect lr1 \<and> mesh_shape xsize aspect tr1
      \<and> raster_shape lr1 (ma_data ma1) \<and> raster_shape lr1 (ma_mask ma1))
   \<and> (hpxmap_to_xy hp hpxmap lon_range lat_range nest xsize aspect = Inr (lr2, tr2, ma2) \<longrightarrow>
      mesh_shape xsize aspect lr2 \<and> mesh_shape xsize aspect tr2
      \<and> raster_shape lr2 (ma_data ma2) \<and> raster_shape lr2 (ma_mask ma2))
   \<and> (healpix_to_xy hp nside pixels vals lon_range lat_range nest xsize aspect = Inr (lr3, tr3, ma3) \<longrightarrow>
      mesh_shape xsize aspect lr3 \<and> mesh_shape xsize aspect tr3
      \<and> raster_shape lr3 (ma_data ma3) \<and> raster_shape lr3 (ma_mask ma3))"
proof (intro conjI)
  show "hspmap_to_xy m lon_range lat_range xsize aspect vm = Inr (lr1, tr1, ma1) \<longrightarrow>
      mesh_shape xsize aspect lr1 \<and> mesh_shape xsize aspect tr1
      \<and> raster_shape lr1 (ma_data ma1) \<and> raster_shape lr1 (ma_mask ma1)"
    by (rule impI) (erule hspmap_to_xy_shape)
  show "hpxmap_to_xy hp hpxmap lon_range lat_range nest xsize aspect = Inr (lr2, tr2, ma2) \<longrightarrow>
      mesh_shape xsize aspect lr2 \<and> mesh_shape xsize aspect tr2
      \<and> raster_shape lr2 (ma_data ma2) \<and> raster_shape lr2 (ma_mask ma2)"
    by (rule impI) (erule hpxmap_to_xy_shape)
  show "healpix_to_xy hp nside pixels vals lon_range lat_range nest xsize aspect = Inr (lr3, tr3, ma3) \<longrightarrow>
      mesh_shape xsize aspect lr3 \<and> mesh_shape xsize aspect tr3
      \<and> raster_shape lr3 (ma_data ma3) \<and> raster_shape lr3 (ma_mask ma3)"
    by (rule impI) (erule healpix_to_xy_shape)
qed

lemma upt_0_3: "[0..<3] = [0, 1, 2]" by (simp add: upt_rec)
lemma upt_0_2: "[0..<2] = [0, 1]" by (simp add: upt_rec)

lemma make_mesh_example:
  "make_mesh (0, 1) (0, 1) 3 (9 / 10) =
     Inr (\<lparr>nrows = 2, ncols = 3, cells = [[0, 1 / 2, 1], [0, 1 / 2, 1]]\<rparr>,
          \<lparr>nrows = 2, ncols = 3, cells = [[0, 0, 0], [1, 1, 1]]\<rparr>)"
  by (simp add: make_mesh_def py_int_def meshgrid_def linspace_def upt_0_3 upt_0_2)

lemma centers_example:
  "centers \<lparr>nrows = 2, ncols = 3, cells = [[0, 1 / 2, 1], [0, 1 / 2, 1]]\<rparr>
     = \<lparr>nrows = 1, ncols = 2, cells = [[1 / 4, 3 / 4]]\<rparr>"
  "centers \<lparr>nrows = 2, ncols = 3, cells = [[0, 0, 0], [1, 1, 1]]\<rparr>
     = \<lparr>nrows = 1, ncols = 2, cells = [[1 / 2, 1 / 2]]\<rparr>"
  by (simp_all add: centers_def)

lemma hpxmap_to_xy_example:
  "hpxmap_to_xy hp0 (replicate 12 (Finite 7)) (0, 1) (0, 1) False 3 (9 / 10) =
     Inr (\<lparr>nrows = 2, ncols = 3, cells = [[0, 1 / 2, 1], [0, 1 / 2, 1]]\<rparr>,
          \<lparr>nrows = 2, ncols = 3, cells = [[0, 0, 0], [1, 1, 1]]\<rparr>,
          \<lparr>ma_data = \<lparr>nrows = 1, ncols = 2, cells = [[Finite 7, Finite 7]]\<rparr>,
           ma_mask = \<lparr>nrows = 1, ncols = 2, cells = [[False, False]]\<rparr>\<rparr>)"
  by (simp add: hpxmap_to_xy_def make_mesh_example centers_example hp0_def map2_arr_def mapE_arr_def
      np_index_def norm_index_def map_arr_def UNSEEN_def)

lemma hspmap_to_xy_example:
  "hspmap_to_xy hspmap0 (0, 1) (0, 1) 3 (9 / 10) False =
     Inr (\<lparr>nrows = 2, ncols = 3, cells = [[0, 1 / 2, 1], [0, 1 / 2, 1]]\<rparr>,
          \<lparr>nrows = 2, ncols = 3, cells = [[0, 0, 0], [1, 1, 1]]\<rparr>,
          \<lparr>ma_data = \<lparr>nrows = 1, ncols = 2, cells = [[Finite (1 / 4), Finite (3 / 4)]]\<rparr>,
           ma_mask = \<lparr>nrows = 1, ncols = 2, cells = [[False, False]]\<rparr>\<rparr>)"
  by (simp add: hspmap_to_xy_def make_mesh_example centers_example hspmap0_def map2_arr_def
      map_arr_def hsp_cell_def UNSEEN_def)


lemma make_mesh_error:
  "make_mesh lon_range lat_range xsize aspect = Inl e \<Longrightarrow> e = NegativeSamplesError"
  by (auto simp: make_mesh_def Let_def split: if_splits)

lemma lookup_cell_error:
  "lookup_cell pixels vals st clamp q = Inl e \<Longrightarrow> e = IndexError"
  by (auto simp: lookup_cell_def Let_def split: if_splits)

lemma mapE_arr_Inl:
  assumes "mapE_arr f g = Inl e"
  shows "\<exists>x. f x = Inl e"
proof -
  from assms have "mapE (mapE f) (cells g) = Inl e"
    by (auto simp: mapE_arr_def split: sum.splits)
  then obtain r where "mapE f r = Inl e"
    using mapE_Inl by blast
  then show ?thesis
    using mapE_Inl by blast
qed

text \<open>
  Claim C5. \<^verbatim>\<open>healpix_to_xy\<close> fails with the error "The pixels array must be unique."
  exactly when the pixels array holds a duplicate; the failure is the whole result of the
  call, and no other exception of the call is this one.
\<close>

theorem healpix_to_xy_rejects_duplicates:
  "healpix_to_xy hp nside pixels vals lon_range lat_range nest xsize aspect = Inl NotUniqueError
     \<longleftrightarrow> \<not> distinct pixels"
proof (cases "distinct pixels")
  case False
  then show ?thesis by (simp add: healpix_to_xy_def)
next
  case True
  have "healpix_to_xy hp nside pixels vals lon_range lat_range nest xsize aspect \<noteq> Inl NotUniqueError"
  proof
    assume a: "healpix_to_xy hp nside pixels vals lon_range lat_range nest xsize aspect = Inl NotUniqueError"
    show False
    proof (cases "make_mesh lon_range lat_range xsize aspect")
      case (Inl e)
      with a True make_mesh_error [OF Inl] show False
        by (simp add: healpix_to_xy_def)
    next
      case (Inr m)
      obtain lr tr where m: "m = (lr, tr)" by (cases m)
      from a True Inr m have "\<exists>f g. mapE_arr (lookup_cell pixels vals (argsort pixels) f) g = Inl NotUniqueError"
        by (auto simp: healpix_to_xy_def Let_def split: if_splits sum.splits)
      then show False
        using mapE_arr_Inl lookup_cell_error by blast
    qed
  qed
  with True show ?thesis by simp
qed

lemma argsort_facts:
  shows length_argsort: "length (argsort pixels) = length pixels"
    and set_argsort: "set (argsort pixels) = {0..<length pixels}"
    and sorted_argsort: "sorted (map (\<lambda>i. pixels ! i) (argsort pixels))"
proof -
  let ?Z = "zip pixels [0..<length pixels]"
  let ?L = "sort_key fst ?Z"
  show "length (argsort pixels) = length pixels"
    by (simp add: argsort_def)
  have z: "map snd ?Z = [0..<length pixels]"
    by simp
  have "snd ` set ?Z = set (map snd ?Z)"
    by (simp only: set_map)
  also have "\<dots> = {0..<length pixels}"
    by (simp only: z set_upt)
  finally show "set (argsort pixels) = {0..<length pixels}"
    by (simp add: argsort_def)
  have "\<forall>x \<in> set ?L. pixels ! snd x = fst x"
    by (auto simp: set_zip)
  then have "map (\<lambda>i. pixels ! i) (argsort pixels) = map fst ?L"
    by (simp add: argsort_def)
  then show "sorted (map (\<lambda>i. pixels ! i) (argsort pixels))"
    by simp
qed

lemma lookup_cell_correct:
  assumes d: "distinct pixels"
    and r: "lookup_cell pixels vals (argsort pixels) clamp q = Inr r"
  shows "(r \<noteq> None) = (q \<in> set pixels)"
    and "\<forall>k < length pixels. pixels ! k = q \<longrightarrow> r = Some (vals ! k)"
proof -
  let ?st = "argsort pixels"
  let ?n = "length pixels"
  let ?P = "\<lambda>i. pixels ! i < q"
  let ?s1 = "length (takeWhile ?P ?st)"
  have in_range: "?st ! m < ?n" if "m < ?n" for m
    using set_argsort [of pixels] that nth_mem [of m ?st] by (simp add: length_argsort)
  have hit: "?s1 < ?n \<and> pixels ! (?st ! ?s1) = q" if "q \<in> set pixels"
  proof -
    from that obtain k where k: "k < ?n" "pixels ! k = q"
      by (auto simp: in_set_conv_nth)
    then have "k \<in> set ?st" by (simp add: set_argsort)
    then obtain m where m: "m < ?n" "?st ! m = k"
      by (auto simp: in_set_conv_nth length_argsort)
    have nP: "\<not> ?P (?st ! m)" using m k by simp
    have le: "?s1 \<le> m"
    proof (rule ccontr)
      assume "\<not> ?s1 \<le> m"
      then have lt: "m < ?s1" by simp
      then have "takeWhile ?P ?st ! m \<in> set (takeWhile ?P ?st)"
        by (intro nth_mem)
      then have "?P (takeWhile ?P ?st ! m)"
        by (rule set_takeWhileD [THEN conjunct2])
      with lt nP show False
        by (simp add: takeWhile_nth)
    qed
    then have lt: "?s1 < ?n" using m by simp
    then have "\<not> ?P (?st ! ?s1)"
      by (intro nth_length_takeWhile) (simp add: length_argsort)
    moreover have "map (\<lambda>i. pixels ! i) ?st ! ?s1 \<le> map (\<lambda>i. pixels ! i) ?st ! m"
      using sorted_argsort [of pixels] le m by (intro sorted_nth_mono) (simp_all add: length_argsort)
    ultimately show ?thesis
      using lt m k by (simp add: length_argsort)
  qed
  show "(r \<noteq> None) = (q \<in> set pixels)"
  proof
    assume "r \<noteq> None"
    with r obtain s where "s < ?n" "pixels ! (?st ! s) = q"
      by (auto simp: lookup_cell_def searchsorted_def Let_def length_argsort split: if_splits)
    then show "q \<in> set pixels"
      using in_range [of s] by (auto simp: in_set_conv_nth)
  next
    assume "q \<in> set pixels"
    from hit [OF this] r show "r \<noteq> None"
      by (auto simp: lookup_cell_def searchsorted_def Let_def length_argsort split: if_splits)
  qed
  show "\<forall>k < length pixels. pixels ! k = q \<longrightarrow> r = Some (vals ! k)"
  proof (intro allI impI)
    fix k assume k: "k < ?n" "pixels ! k = q"
    then have "q \<in> set pixels" by (auto simp: in_set_conv_nth)
    note h = hit [OF this]
    have "(pixels ! (?st ! ?s1) = pixels ! k) = (?st ! ?s1 = k)"
      using d in_range [OF h [THEN conjunct1]] k(1) by (rule nth_eq_iff_index_eq)
    with h k have "?st ! ?s1 = k" by simp
    with h r show "r = Some (vals ! k)"
      by (auto simp: lookup_cell_def searchsorted_def Let_def length_argsort split: if_splits)
  qed
qed

text \<open>
  Claim C4. When \<^verbatim>\<open>healpix_to_xy\<close> returns, a raster cell is unmasked exactly when the
  pixel id of its centre occurs in \<open>pixels\<close>, and an unmasked cell holds the value stored
  at the position of that id. A searched position whose entry is another id, the clamped
  last position included, leaves the cell masked.
\<close>

theorem healpix_to_xy_unmasked_iff_member:
  assumes res: "healpix_to_xy hp nside pixels vals lon_range lat_range nest xsize aspect = Inr (lr, tr, ma)"
    and i: "i < nrows (ma_data ma)" and j: "j < ncols (ma_data ma)"
  shows "(\<not> cells (ma_mask ma) ! i ! j) =
           (angle_to_pixel hp nside nest (cells (centers lr) ! i ! j) (cells (centers tr) ! i ! j)
              \<in> set pixels)
    \<and> (\<forall>k < length pixels.
          pixels ! k = angle_to_pixel hp nside nest (cells (centers lr) ! i ! j) (cells (centers tr) ! i ! j)
          \<longrightarrow> cells (ma_data ma) ! i ! j = vals ! k)"
proof -
  let ?pr = "map2_arr (angle_to_pixel hp nside nest) (centers lr) (centers tr)"
  let ?q = "angle_to_pixel hp nside nest (cells (centers lr) ! i ! j) (cells (centers tr) ! i ! j)"
  from res obtain found where u: "length (remdups pixels) = length pixels"
    and m1: "make_mesh lon_range lat_range xsize aspect = Inr (lr, tr)"
    and v: "mapE_arr (lookup_cell pixels vals (argsort pixels)
             (Max (set (ravel ?pr)) > Max (set pixels))) ?pr = Inr found"
    and dat: "ma_data ma = map_arr (\<lambda>r. case r of None \<Rightarrow> 0 | Some v \<Rightarrow> v) found"
    and msk: "ma_mask ma = map_arr (\<lambda>r. r = None) found"
    by (rule healpix_to_xy_parts)
  from u have d: "distinct pixels" by simp
  note M = make_mesh_Inr [OF m1]
  have wc: "wf_arr (centers lr)" "wf_arr (centers tr)"
    using M by (simp_all add: wf_centers)
  have w: "wf_arr ?pr"
    using M wc by (intro wf_map2_arr) simp_all
  note F = mapE_arr_Inr [OF v w]
  from i j dat F(1,2) have ij: "i < nrows ?pr" "j < ncols ?pr" by simp_all
  then have ij': "i < nrows (centers lr)" "j < ncols (centers lr)" by simp_all
  have q: "cells ?pr ! i ! j = ?q"
    using wc M ij' by (intro cells_map2_arr) simp_all
  from F(4) [OF ij] q
  have lk: "lookup_cell pixels vals (argsort pixels) (Max (set (ravel ?pr)) > Max (set pixels)) ?q
              = Inr (cells found ! i ! j)"
    by simp
  have fij: "i < nrows found" "j < ncols found" using ij F(1,2) by simp_all
  have mk: "cells (ma_mask ma) ! i ! j = (cells found ! i ! j = None)"
    using msk cells_map_arr [OF F(3) fij] by simp
  have dt: "cells (ma_data ma) ! i ! j = (case cells found ! i ! j of None \<Rightarrow> 0 | Some v \<Rightarrow> v)"
    using dat cells_map_arr [OF F(3) fij] by simp
  from lookup_cell_correct [OF d lk] mk dt show ?thesis
    by auto
qed

lemma healpix_to_xy_example:
  "healpix_to_xy hp0 1 [1, 0] [10, 20] (0, 1) (0, 1) False 3 (9 / 10) =
     Inr (\<lparr>nrows = 2, ncols = 3, cells = [[0, 1 / 2, 1], [0, 1 / 2, 1]]\<rparr>,
          \<lparr>nrows = 2, ncols = 3, cells = [[0, 0, 0], [1, 1, 1]]\<rparr>,
          \<lparr>ma_data = \<lparr>nrows = 1, ncols = 2, cells = [[10, 0]]\<rparr>,
           ma_mask = \<lparr>nrows = 1, ncols = 2, cells = [[False, True]]\<rparr>\<rparr>)"
  by (simp add: healpix_to_xy_def make_mesh_example centers_example hp0_def map2_arr_def mapE_arr_def
      map_arr_def ravel_def argsort_def upt_0_2 lookup_cell_def searchsorted_def)


lemma takeWhile_all:
  assumes "length (takeWhile P xs) = length xs" "x \<in> set xs"
  shows "P x"
proof -
  from assms(1) have "takeWhile P xs = xs"
    by (metis takeWhile_dropWhile_id append_self_conv length_0_conv length_append add_cancel_right_right)
  with assms(2) show ?thesis
    by (metis set_takeWhileD)
qed

lemma lookup_cell_total:
  assumes ne: "pixels \<noteq> []" and len: "length pixels \<le> length vals"
    and q: "clamp \<or> q \<le> Max (set pixels)"
  shows "\<exists>r. lookup_cell pixels vals (argsort pixels) clamp q = Inr r"
proof -
  let ?st = "argsort pixels"
  let ?n = "length pixels"
  let ?P = "\<lambda>i. pixels ! i < q"
  let ?s1 = "length (takeWhile ?P ?st)"
  let ?s1' = "if clamp \<and> ?s1 = ?n then ?n - 1 else ?s1"
  have le: "?s1 \<le> ?n"
    using length_takeWhile_le [of ?P ?st] by (simp add: length_argsort)
  have "?s1 < ?n" if "\<not> clamp"
  proof (rule ccontr)
    assume "\<not> ?s1 < ?n"
    with le have e: "?s1 = length ?st" by (simp add: length_argsort)
    from ne have "Max (set pixels) \<in> set pixels" by (intro Max_in) simp_all
    then obtain k where k: "k < ?n" "pixels ! k = Max (set pixels)"
      by (auto simp: in_set_conv_nth)
    then have "k \<in> set ?st" by (simp add: set_argsort)
    from takeWhile_all [OF e this] k q that show False by simp
  qed
  with le ne have s: "?s1' < ?n"
    by (cases clamp) auto
  then have "?st ! ?s1' \<in> set ?st"
    by (intro nth_mem) (simp add: length_argsort)
  then have "?st ! ?s1' < length vals"
    using len by (simp add: set_argsort)
  with s show ?thesis
    by (simp add: lookup_cell_def searchsorted_def Let_def length_argsort)
qed

lemma healpix_to_xy_returns:
  assumes d: "distinct pixels" and ne: "pixels \<noteq> []" and len: "length pixels \<le> length vals"
    and x: "2 \<le> xsize" and y: "2 \<le> py_int (aspect * real_of_int xsize)"
  shows "\<exists>lr tr ma. healpix_to_xy hp nside pixels vals lon_range lat_range nest xsize aspect
           = Inr (lr, tr, ma)"
proof -
  from x y obtain lr tr where m1: "make_mesh lon_range lat_range xsize aspect = Inr (lr, tr)"
    using make_mesh_total [of xsize aspect lon_range lat_range] by auto
  note M = make_mesh_Inr [OF m1]
  let ?pr = "map2_arr (angle_to_pixel hp nside nest) (centers lr) (centers tr)"
  let ?clamp = "Max (set (ravel ?pr)) > Max (set pixels)"
  have w: "wf_arr ?pr"
    using M by (intro wf_map2_arr wf_centers) simp_all
  have sz: "0 < nrows ?pr" "0 < ncols ?pr"
    using M x y by simp_all
  have l0: "length (cells ?pr) = nrows ?pr" "length (cells ?pr ! 0) = ncols ?pr"
    using w sz by (simp_all add: wf_arr_def)
  have "cells ?pr \<noteq> []" "cells ?pr ! 0 \<noteq> []"
    using l0 sz by auto
  then have "cells ?pr ! 0 \<in> set (cells ?pr)" "cells ?pr ! 0 \<noteq> []"
    by simp_all
  then have rne: "ravel ?pr \<noteq> []"
    by (auto simp: ravel_def)
  have cell: "\<exists>r. lookup_cell pixels vals (argsort pixels) ?clamp q = Inr r"
    if "q \<in> set (ravel ?pr)" for q
  proof -
    from that have "q \<le> Max (set (ravel ?pr))" by simp
    then have "?clamp \<or> q \<le> Max (set pixels)" by linarith
    with ne len show ?thesis by (rule lookup_cell_total)
  qed
  have "\<exists>ys. mapE (lookup_cell pixels vals (argsort pixels) ?clamp) r = Inr ys"
    if "r \<in> set (cells ?pr)" for r
    using that by (intro mapE_total cell) (auto simp: ravel_def)
  then obtain rs where "mapE (mapE (lookup_cell pixels vals (argsort pixels) ?clamp)) (cells ?pr) = Inr rs"
    using mapE_total [of "cells ?pr" "mapE (lookup_cell pixels vals (argsort pixels) ?clamp)"] by blast
  with d ne rne m1 show ?thesis
    by (simp add: healpix_to_xy_def mapE_arr_def Let_def)
qed

text \<open>
  Claim C7, amended. When \<^verbatim>\<open>hpxmap_to_xy\<close> returns, every cell carries the map value
  at the pixel of its centre, and the cell is masked exactly when that value is NaN or
  within the tolerance of \<^verbatim>\<open>np.isclose\<close> around the sentinel, that is
  \<open>|v - UNSEEN| \<le> 10\<^sup>-\<^sup>8 + 10\<^sup>-\<^sup>5 \<cdot> |UNSEEN|\<close>.
\<close>

theorem hpxmap_to_xy_mask_isclose_or_nan:
  assumes res: "hpxmap_to_xy hp hpxmap lon_range lat_range nest xsize aspect = Inr (lr, tr, ma)"
    and i: "i < nrows (ma_data ma)" and j: "j < ncols (ma_data ma)"
  shows "cells (ma_mask ma) ! i ! j =
           (isclose (cells (ma_data ma) ! i ! j) UNSEEN \<or> isnan (cells (ma_data ma) ! i ! j))
    \<and> (\<exists>nside. npixel_to_nside hp (length hpxmap) = Inr nside
          \<and> np_index hpxmap (angle_to_pixel hp nside nest (cells (centers lr) ! i ! j)
                                 (cells (centers tr) ! i ! j))
              = Inr (cells (ma_data ma) ! i ! j))"
proof -
  from res obtain nside where m1: "make_mesh lon_range lat_range xsize aspect = Inr (lr, tr)"
    and ns: "npixel_to_nside hp (length hpxmap) = Inr nside"
    and v: "mapE_arr (np_index hpxmap)
           (map2_arr (angle_to_pixel hp nside nest) (centers lr) (centers tr)) = Inr (ma_data ma)"
    and k: "ma_mask ma = map_arr (\<lambda>v. isclose v UNSEEN \<or> isnan v) (ma_data ma)"
    by (rule hpxmap_to_xy_parts)
  let ?pr = "map2_arr (angle_to_pixel hp nside nest) (centers lr) (centers tr)"
  note M = make_mesh_Inr [OF m1]
  have wc: "wf_arr (centers lr)" "wf_arr (centers tr)"
    using M by (simp_all add: wf_centers)
  have w: "wf_arr ?pr"
    using M wc by (intro wf_map2_arr) simp_all
  note F = mapE_arr_Inr [OF v w]
  from i j F(1,2) have ij: "i < nrows ?pr" "j < ncols ?pr" by simp_all
  then have ij': "i < nrows (centers lr)" "j < ncols (centers lr)" by simp_all
  have q: "cells ?pr ! i ! j
             = angle_to_pixel hp nside nest (cells (centers lr) ! i ! j) (cells (centers tr) ! i ! j)"
    using wc M ij' by (intro cells_map2_arr) simp_all
  have "cells (ma_mask ma) ! i ! j =
           (isclose (cells (ma_data ma) ! i ! j) UNSEEN \<or> isnan (cells (ma_data ma) ! i ! j))"
    using k cells_map_arr [OF F(3) i j] by simp
  with F(4) [OF ij] q ns show ?thesis
    by auto
qed

text \<open>
  Claim C7 as stated fails: the value \<open>-1.63750001e30\<close> is neither the sentinel nor NaN,
  and a cell holding it is masked.
\<close>

theorem hpxmap_to_xy_masks_near_sentinel:
  "hpxmap_to_xy hp0 (replicate 12 (Finite (- 163750001 * 10 ^ 22))) (0, 1) (0, 1) False 3 (9 / 10) =
     Inr (\<lparr>nrows = 2, ncols = 3, cells = [[0, 1 / 2, 1], [0, 1 / 2, 1]]\<rparr>,
          \<lparr>nrows = 2, ncols = 3, cells = [[0, 0, 0], [1, 1, 1]]\<rparr>,
          \<lparr>ma_data = \<lparr>nrows = 1, ncols = 2,
                       cells = [[Finite (- 163750001 * 10 ^ 22), Finite (- 163750001 * 10 ^ 22)]]\<rparr>,
           ma_mask = \<lparr>nrows = 1, ncols = 2, cells = [[True, True]]\<rparr>\<rparr>)
   \<and> Finite (- 163750001 * 10 ^ 22) \<noteq> Finite UNSEEN
   \<and> \<not> isnan (Finite (- 163750001 * 10 ^ 22))"
  by (simp add: hpxmap_to_xy_def make_mesh_example centers_example hp0_def map2_arr_def mapE_arr_def
      np_index_def norm_index_def map_arr_def UNSEEN_def)

text \<open>
  Claim C6 as stated fails: with \<open>xsize = 3\<close> and \<open>aspect = 0.9\<close> the mesh has 2 rows,
  and \<open>round(0.9 \<cdot> 3) = 3\<close>.
\<close>

theorem mesh_rows_truncated_not_rounded:
  "hpxmap_to_xy hp0 (replicate 12 (Finite 7)) (0, 1) (0, 1) False 3 (9 / 10) =
     Inr (\<lparr>nrows = 2, ncols = 3, cells = [[0, 1 / 2, 1], [0, 1 / 2, 1]]\<rparr>,
          \<lparr>nrows = 2, ncols = 3, cells = [[0, 0, 0], [1, 1, 1]]\<rparr>,
          \<lparr>ma_data = \<lparr>nrows = 1, ncols = 2, cells = [[Finite 7, Finite 7]]\<rparr>,
           ma_mask = \<lparr>nrows = 1, ncols = 2, cells = [[False, False]]\<rparr>\<rparr>)
   \<and> round (9 / 10 * 3 :: real) = 3"
  by (simp add: hpxmap_to_xy_example round_def)

theorem rasterizers_mesh_and_raster_shape_witness:
  "hspmap_to_xy hspmap0 (0, 1) (0, 1) 3 (9 / 10) False =
     Inr (\<lparr>nrows = 2, ncols = 3, cells = [[0, 1 / 2, 1], [0, 1 / 2, 1]]\<rparr>,
          \<lparr>nrows = 2, ncols = 3, cells = [[0, 0, 0], [1, 1, 1]]\<rparr>,
          \<lparr>ma_data = \<lparr>nrows = 1, ncols = 2, cells = [[Finite (1 / 4), Finite (3 / 4)]]\<rparr>,
           ma_mask = \<lparr>nrows = 1, ncols = 2, cells = [[False, False]]\<rparr>\<rparr>)
   \<and> hpxmap_to_xy hp0 (replicate 12 (Finite 7)) (0, 1) (0, 1) False 3 (9 / 10) =
     Inr (\<lparr>nrows = 2, ncols = 3, cells = [[0, 1 / 2, 1], [0, 1 / 2, 1]]\<rparr>,
          \<lparr>nrows = 2, ncols = 3, cells = [[0, 0, 0], [1, 1, 1]]\<rparr>,
          \<lparr>ma_data = \<lparr>nrows = 1, ncols = 2, cells = [[Finite 7, Finite 7]]\<rparr>,
           ma_mask = \<lparr>nrows = 1, ncols = 2, cells = [[False, False]]\<rparr>\<rparr>)
   \<and> healpix_to_xy hp0 1 [1, 0] [10, 20] (0, 1) (0, 1) False 3 (9 / 10) =
     Inr (\<lparr>nrows = 2, ncols = 3, cells = [[0, 1 / 2, 1], [0, 1 / 2, 1]]\<rparr>,
          \<lparr>nrows = 2, ncols = 3, cells = [[0, 0, 0], [1, 1, 1]]\<rparr>,
          \<lparr>ma_data = \<lparr>nrows = 1, ncols = 2, cells = [[10, 0]]\<rparr>,
           ma_mask = \<lparr>nrows = 1, ncols = 2, cells = [[False, True]]\<rparr>\<rparr>)
   \<and> mesh_shape 3 (9 / 10) \<lparr>nrows = 2, ncols = 3, cells = [[0, 1 / 2, 1], [0, 1 / 2, 1 :: real]]\<rparr>
   \<and> raster_shape \<lparr>nrows = 2, ncols = 3, cells = [[0, 1 / 2, 1], [0, 1 / 2, 1 :: real]]\<rparr>
         \<lparr>nrows = 1, ncols = 2, cells = [[Finite (1 / 4), Finite (3 / 4)]]\<rparr>
   \<and> raster_shape \<lparr>nrows = 2, ncols = 3, cells = [[0, 1 / 2, 1], [0, 1 / 2, 1 :: real]]\<rparr>
         \<lparr>nrows = 1, ncols = 2, cells = [[Finite 7, Finite 7]]\<rparr>
   \<and> raster_shape \<lparr>nrows = 2, ncols = 3, cells = [[0, 1 / 2, 1], [0, 1 / 2, 1 :: real]]\<rparr>
         \<lparr>nrows = 1, ncols = 2, cells = [[10, 0 :: real]]\<rparr>"
  using rasterizers_mesh_and_raster_shape
    [of hspmap0 "(0, 1)" "(0, 1)" 3 "9 / 10" False
        "\<lparr>nrows = 2, ncols = 3, cells = [[0, 1 / 2, 1], [0, 1 / 2, 1]]\<rparr>"
        "\<lparr>nrows = 2, ncols = 3, cells = [[0, 0, 0], [1, 1, 1]]\<rparr>"
        "\<lparr>ma_data = \<lparr>nrows = 1, ncols = 2, cells = [[Finite (1 / 4), Finite (3 / 4)]]\<rparr>,
          ma_mask = \<lparr>nrows = 1, ncols = 2, cells = [[False, False]]\<rparr>\<rparr>"
        hp0 "replicate 12 (Finite 7)" False
        "\<lparr>nrows = 2, ncols = 3, cells = [[0, 1 / 2, 1], [0, 1 / 2, 1]]\<rparr>"
        "\<lparr>nrows = 2, ncols = 3, cells = [[0, 0, 0], [1, 1, 1]]\<rparr>"
        "\<lparr>ma_data = \<lparr>nrows = 1, ncols = 2, cells = [[Finite 7, Finite 7]]\<rparr>,
          ma_mask = \<lparr>nrows = 1, ncols = 2, cells = [[False, False]]\<rparr>\<rparr>"
        1 "[1, 0]" "[10, 20]"
        "\<lparr>nrows = 2, ncols = 3, cells = [[0, 1 / 2, 1], [0, 1 / 2, 1]]\<rparr>"
        "\<lparr>nrows = 2, ncols = 3, cells = [[0, 0, 0], [1, 1, 1]]\<rparr>"
        "\<lparr>ma_data = \<lparr>nrows = 1, ncols = 2, cells = [[10, 0]]\<rparr>,
          ma_mask = \<lparr>nrows = 1, ncols = 2, cells = [[False, True]]\<rparr>\<rparr>"]
    hspmap_to_xy_example hpxmap_to_xy_example healpix_to_xy_example
  by simp

theorem healpix_to_xy_rejects_duplicates_witness:
  "healpix_to_xy hp0 1 [3, 3] [10, 20] (0, 1) (0, 1) False 3 (9 / 10) = Inl NotUniqueError
   \<and> healpix_to_xy hp0 1 [1, 0] [10, 20] (0, 1) (0, 1) False 3 (9 / 10) \<noteq> Inl NotUniqueError"
  using healpix_to_xy_rejects_duplicates [of hp0 1 "[3, 3]" "[10, 20]" "(0, 1)" "(0, 1)" False 3 "9 / 10"]
    healpix_to_xy_rejects_duplicates [of hp0 1 "[1, 0]" "[10, 20]" "(0, 1)" "(0, 1)" False 3 "9 / 10"]
  by simp

theorem healpix_to_xy_unmasked_iff_member_witness:
  "healpix_to_xy hp0 1 [1, 0] [10, 20] (0, 1) (0, 1) False 3 (9 / 10) =
     Inr (\<lparr>nrows = 2, ncols = 3, cells = [[0, 1 / 2, 1], [0, 1 / 2, 1]]\<rparr>,
          \<lparr>nrows = 2, ncols = 3, cells = [[0, 0, 0], [1, 1, 1]]\<rparr>,
          \<lparr>ma_data = \<lparr>nrows = 1, ncols = 2, cells = [[10, 0]]\<rparr>,
           ma_mask = \<lparr>nrows = 1, ncols = 2, cells = [[False, True]]\<rparr>\<rparr>)
   \<and> angle_to_pixel hp0 1 False (1 / 4) (1 / 2) = 1
   \<and> angle_to_pixel hp0 1 False (3 / 4) (1 / 2) = 3
   \<and> (1 :: int) \<in> set [1, 0] \<and> (3 :: int) \<notin> set [1, 0]"
proof -
  let ?L = "\<lparr>nrows = 2, ncols = 3, cells = [[0, 1 / 2, 1], [0, 1 / 2, 1 :: real]]\<rparr>"
  let ?T = "\<lparr>nrows = 2, ncols = 3, cells = [[0, 0, 0], [1, 1, 1 :: real]]\<rparr>"
  let ?M = "\<lparr>ma_data = \<lparr>nrows = 1, ncols = 2, cells = [[10, 0 :: real]]\<rparr>,
            ma_mask = \<lparr>nrows = 1, ncols = 2, cells = [[False, True]]\<rparr>\<rparr>"
  have r: "healpix_to_xy hp0 1 [1, 0] [10, 20] (0, 1) (0, 1) False 3 (9 / 10) = Inr (?L, ?T, ?M)"
    by (rule healpix_to_xy_example)
  have a: "angle_to_pixel hp0 1 False (1 / 4) (1 / 2) = 1"
    "angle_to_pixel hp0 1 False (3 / 4) (1 / 2) = 3"
    by (simp_all add: hp0_def)
  have "(0 :: nat) < nrows (ma_data ?M)" "(0 :: nat) < ncols (ma_data ?M)" "(1 :: nat) < ncols (ma_data ?M)"
    by simp_all
  from healpix_to_xy_unmasked_iff_member [OF r this(1,2)]
    healpix_to_xy_unmasked_iff_member [OF r this(1,3)] r a
  show ?thesis
    by (simp add: centers_example)
qed

theorem hpxmap_to_xy_mask_isclose_or_nan_witness:
  "hpxmap_to_xy hp0 (replicate 12 (Finite 7)) (0, 1) (0, 1) False 3 (9 / 10) =
     Inr (\<lparr>nrows = 2, ncols = 3, cells = [[0, 1 / 2, 1], [0, 1 / 2, 1]]\<rparr>,
          \<lparr>nrows = 2, ncols = 3, cells = [[0, 0, 0], [1, 1, 1]]\<rparr>,
          \<lparr>ma_data = \<lparr>nrows = 1, ncols = 2, cells = [[Finite 7, Finite 7]]\<rparr>,
           ma_mask = \<lparr>nrows = 1, ncols = 2, cells = [[False, False]]\<rparr>\<rparr>)
   \<and> \<not> isclose (Finite 7) UNSEEN \<and> \<not> isnan (Finite 7)"
proof -
  let ?L = "\<lparr>nrows = 2, ncols = 3, cells = [[0, 1 / 2, 1], [0, 1 / 2, 1 :: real]]\<rparr>"
  let ?T = "\<lparr>nrows = 2, ncols = 3, cells = [[0, 0, 0], [1, 1, 1 :: real]]\<rparr>"
  let ?M = "\<lparr>ma_data = \<lparr>nrows = 1, ncols = 2, cells = [[Finite 7, Finite 7]]\<rparr>,
            ma_mask = \<lparr>nrows = 1, ncols = 2, cells = [[False, False]]\<rparr>\<rparr>"
  have r: "hpxmap_to_xy hp0 (replicate 12 (Finite 7)) (0, 1) (0, 1) False 3 (9 / 10) = Inr (?L, ?T, ?M)"
    by (rule hpxmap_to_xy_example)
  have "(0 :: nat) < nrows (ma_data ?M)" "(0 :: nat) < ncols (ma_data ?M)"
    by simp_all
  from hpxmap_to_xy_mask_isclose_or_nan [OF r this] r show ?thesis
    by simp
qed

section \<open>Properties of the scatter binner\<close>


lemma norm_index_less: "norm_index n i = Some k \<Longrightarrow> k < n"
  by (auto simp: norm_index_def Let_def split: if_splits)

lemma add_at_Inr:
  fixes a :: "'a::comm_monoid_add list"
  assumes "add_at a ps vs = Inr b"
  shows "length b = length a \<and>
    (\<forall>k < length a. b ! k =
       a ! k + sum_list (map snd (filter (\<lambda>(q, v). norm_index (length a) q = Some k) (zip ps vs))))"
  using assms
proof (induction a ps vs arbitrary: b rule: add_at.induct)
  case (1 a vs)
  then show ?case by simp
next
  case (2 a p ps)
  then show ?case by simp
next
  case (3 a p ps v vs)
  from "3.prems" obtain k where k: "norm_index (length a) p = Some k"
    and b: "add_at (a[k := a ! k + v]) ps vs = Inr b"
    by (auto split: option.splits)
  note kl = norm_index_less [OF k]
  from "3.IH" [OF k b] kl k show ?case
    by (auto simp: nth_list_update add.assoc)
qed

lemma add_at_total:
  assumes "length ps \<le> length vs" "\<forall>p \<in> set ps. norm_index (length a) p \<noteq> None"
  shows "\<exists>b. add_at a ps vs = Inr b"
  using assms
proof (induction a ps vs rule: add_at.induct)
  case (1 a vs)
  then show ?case by simp
next
  case (2 a p ps)
  then show ?case by simp
next
  case (3 a p ps v vs)
  then obtain k where k: "norm_index (length a) p = Some k" by auto
  with 3 show ?case by simp
qed

lemma sum_ones:
  "sum_list (map snd (filter (\<lambda>(q, v). P q) (zip ps (replicate (length ps) (1 :: 'a :: semiring_1)))))
     = of_nat (length (filter P ps))"
proof (induction ps)
  case Nil
  show ?case by simp
next
  case (Cons p ps)
  then show ?case by (simp add: add.commute)
qed

lemma count_word:
  assumes "add_at (replicate npix (0 :: 32 word)) pix (replicate (length pix) 1) = Inr count"
    and "p < npix"
  shows "count ! p = of_nat (hits npix pix p)" "length count = npix"
  using add_at_Inr [OF assms(1)] assms(2) sum_ones [of "\<lambda>q. norm_index npix q = Some p" pix]
  by (simp_all add: hits_def)

lemma sint_of_nat_small:
  assumes "n < 2 ^ 31"
  shows "sint (of_nat n :: 32 word) = int n"
proof -
  have "sint (of_nat n :: 32 word) = (int n + 2 ^ 31) mod 2 ^ 32 - 2 ^ 31"
    using int_word_sint [of "int n", where 'a = 32] by simp
  moreover have "(int n + 2 ^ 31) mod 2 ^ 32 = int n + 2 ^ 31"
    using assms by (intro mod_pos_pos_trivial) simp_all
  ultimately show ?thesis by simp
qed

text \<open>
  Claim C8, amended. When \<^verbatim>\<open>healpix_bin\<close> returns and fewer than \<open>2\<^sup>3\<^sup>1\<close> samples land in
  each pixel, the output has one entry per pixel of the resolution; a pixel that no sample
  lands in holds the sentinel; another pixel holds the number of its samples when no values
  were supplied, and the sum of the values of its samples divided by their number when
  values were supplied (a single value stands for every sample).
\<close>

theorem healpix_bin_counts_and_means:
  assumes res: "healpix_bin hp lon lat C nside nest = Inr out"
    and small: "\<forall>p < nside_to_npixel hp nside.
                  hits (nside_to_npixel hp nside) (map2 (angle_to_pixel hp nside nest) lon lat) p < 2 ^ 31"
  shows "length out = nside_to_npixel hp nside
    \<and> (\<forall>p < nside_to_npixel hp nside.
          let n = hits (nside_to_npixel hp nside) (map2 (angle_to_pixel hp nside nest) lon lat) p
          in out ! p =
               (if n = 0 then UNSEEN
                else case C of
                       None \<Rightarrow> real n
                     | Some cs \<Rightarrow>
                         hit_sum (nside_to_npixel hp nside) (map2 (angle_to_pixel hp nside nest) lon lat)
                           (if length cs = length lon then cs else replicate (length lon) (hd cs)) p
                         / real n))"
proof -
  let ?npix = "nside_to_npixel hp nside"
  let ?pix = "map2 (angle_to_pixel hp nside nest) lon lat"
  from res have ll: "length lon = length lat"
    by (auto simp: healpix_bin_def split: if_splits)
  then have lp: "length ?pix = length lon" by simp
  from res ll obtain count where
    c: "add_at (replicate ?npix (0 :: 32 word)) ?pix (replicate (length ?pix) 1) = Inr count"
    by (auto simp: healpix_bin_def Let_def split: sum.splits)
  have cnt: "sint (count ! p) = int (hits ?npix ?pix p)" "length count = ?npix" if "p < ?npix" for p
    using count_word [OF c that] small that by (simp_all add: sint_of_nat_small)
  show ?thesis
  proof (cases C)
    case None
    with res ll c have out: "out = map (\<lambda>i. if map (\<lambda>c. sint c > 0) count ! i
                                              then real_of_int (sint (count ! i)) else UNSEEN) [0..<?npix]"
      by (simp add: healpix_bin_def Let_def)
    show ?thesis
      using None cnt by (auto simp: out Let_def)
  next
    case (Some cs)
    let ?cs = "if length cs = length lon then cs else replicate (length lon) (hd cs)"
    from res ll c Some obtain cs' tot where b: "broadcast_to (length ?pix) cs = Inr cs'"
      and t: "add_at (replicate ?npix (0 :: real)) ?pix cs' = Inr tot"
      and out: "out = map (\<lambda>i. if map (\<lambda>c. sint c > 0) count ! i
                                 then tot ! i / real_of_int (sint (count ! i)) else UNSEEN) [0..<?npix]"
      by (auto simp: healpix_bin_def Let_def split: sum.splits)
    from b lp have cs': "cs' = ?cs"
      by (auto simp: broadcast_to_def split: if_splits)
    have tot: "tot ! p = hit_sum ?npix ?pix ?cs p" if "p < ?npix" for p
      using add_at_Inr [OF t] that by (simp add: hit_sum_def cs')
    show ?thesis
      using Some cnt tot by (auto simp: out Let_def)
  qed
qed

lemma hits_le_length: "hits npix pix p \<le> length pix"
  by (simp add: hits_def)

lemma healpix_bin_returns:
  assumes ll: "length lon = length lat"
    and rng: "\<forall>q \<in> set (map2 (angle_to_pixel hp nside nest) lon lat).
                0 \<le> q \<and> q < int (nside_to_npixel hp nside)"
    and cl: "case C of None \<Rightarrow> True | Some cs \<Rightarrow> length cs = length lon \<or> length cs = 1"
  shows "\<exists>out. healpix_bin hp lon lat C nside nest = Inr out"
proof -
  let ?npix = "nside_to_npixel hp nside"
  let ?pix = "map2 (angle_to_pixel hp nside nest) lon lat"
  have ok: "\<forall>p \<in> set ?pix. norm_index ?npix p \<noteq> None"
    using rng by (auto simp: norm_index_def)
  obtain count where
    c: "add_at (replicate ?npix (0 :: 32 word)) ?pix (replicate (length ?pix) 1) = Inr count"
    using add_at_total [of ?pix "replicate (length ?pix) 1" "replicate ?npix (0 :: 32 word)"] ok
    by auto
  show ?thesis
  proof (cases C)
    case None
    with ll c show ?thesis by (simp add: healpix_bin_def Let_def)
  next
    case (Some cs)
    have "\<exists>cs'. broadcast_to (length ?pix) cs = Inr cs' \<and> length cs' = length ?pix"
    proof (cases "length cs = length ?pix")
      case True
      then show ?thesis by (simp add: broadcast_to_def)
    next
      case False
      with cl Some ll have "length cs = 1" by simp
      with False show ?thesis by (simp add: broadcast_to_def)
    qed
    then obtain cs' where b: "broadcast_to (length ?pix) cs = Inr cs'" "length cs' = length ?pix"
      by blast
    obtain tot where "add_at (replicate ?npix (0 :: real)) ?pix cs' = Inr tot"
      using add_at_total [of ?pix cs' "replicate ?npix (0 :: real)"] ok b by auto
    with Some ll c b show ?thesis by (simp add: healpix_bin_def Let_def)
  qed
qed

lemma sint_2_31: "sint (of_nat (2 ^ 31) :: 32 word) = - (2 ^ 31)"
  using int_word_sint [of "2 ^ 31", where 'a = 32] by simp

text \<open>
  Claim C8 as stated fails: the counts are 32-bit integers. When \<open>2\<^sup>3\<^sup>1\<close> samples land in one
  pixel its count has wrapped to a negative number, and the pixel holds the sentinel.
\<close>

theorem healpix_bin_count_wraps:
  "healpix_bin hp0 (replicate (2 ^ 31) 0) (replicate (2 ^ 31) 0) None 1 False
     = Inr (replicate 12 UNSEEN)
   \<and> hits 12 (map2 (angle_to_pixel hp0 1 False) (replicate (2 ^ 31) 0) (replicate (2 ^ 31) 0)) 0
     = 2 ^ 31"
proof -
  let ?pix = "replicate (2 ^ 31) (0 :: int)"
  have pix: "map2 (angle_to_pixel hp0 1 False) (replicate (2 ^ 31) 0) (replicate (2 ^ 31) 0) = ?pix"
    by (simp add: hp0_def zip_replicate)
  have npix: "nside_to_npixel hp0 (Suc 0) = 12"
    and a2p: "angle_to_pixel hp0 (Suc 0) False 0 0 = 0"
    by (simp_all add: hp0_def)
  have h0: "hits 12 ?pix p = (if p = 0 then 2 ^ 31 else 0)" for p
    by (auto simp: hits_def norm_index_def)
  obtain count where
    c: "add_at (replicate 12 (0 :: 32 word)) ?pix (replicate (length ?pix) 1) = Inr count"
    using add_at_total [of ?pix "replicate (length ?pix) 1" "replicate 12 (0 :: 32 word)"]
    by (auto simp: norm_index_def)
  have cnt: "sint (count ! p) = (if p = 0 then - (2 ^ 31) else 0)" "length count = 12" if "p < 12" for p
    using count_word [OF c that] h0 [of p] sint_2_31 by (simp_all split: if_splits)
  have "healpix_bin hp0 (replicate (2 ^ 31) 0) (replicate (2 ^ 31) 0) None 1 False
          = Inr (map (\<lambda>i. if map (\<lambda>c. sint c > 0) count ! i
                            then real_of_int (sint (count ! i)) else UNSEEN) [0..<12])"
    using c by (simp add: healpix_bin_def Let_def npix a2p)
  also have "map (\<lambda>i. if map (\<lambda>c. sint c > 0) count ! i
                       then real_of_int (sint (count ! i)) else UNSEEN) [0..<12]
               = map (\<lambda>i. UNSEEN) [0..<12]"
    using cnt by (intro map_cong) auto
  also have "\<dots> = replicate 12 UNSEEN"
    by (simp add: map_replicate_const)
  finally show ?thesis
    using h0 [of 0] by (simp add: a2p)
qed

lemma upt_0_12: "[0..<12] = [0, 1, 2, 3, 4, 5, 6, 7, 8, 9, 10, 11]"
  by (simp add: upt_rec)

lemma healpix_bin_example_means:
  "healpix_bin hp0 [0, 0, 1 / 4] [0, 0, 0] (Some [1, 2, 5]) 1 False
     = Inr [3 / 2, 5, UNSEEN, UNSEEN, UNSEEN, UNSEEN, UNSEEN, UNSEEN, UNSEEN, UNSEEN, UNSEEN, UNSEEN]"
  by (simp add: healpix_bin_def hp0_def norm_index_def broadcast_to_def upt_0_12 numeral_eq_Suc)

lemma healpix_bin_example_counts:
  "healpix_bin hp0 [0, 0, 1 / 4] [0, 0, 0] None 1 False
     = Inr [2, 1, UNSEEN, UNSEEN, UNSEEN, UNSEEN, UNSEEN, UNSEEN, UNSEEN, UNSEEN, UNSEEN, UNSEEN]"
  by (simp add: healpix_bin_def hp0_def norm_index_def broadcast_to_def upt_0_12 numeral_eq_Suc)

theorem healpix_bin_counts_and_means_witness:
  "healpix_bin hp0 [0, 0, 1 / 4] [0, 0, 0] (Some [1, 2, 5]) 1 False
     = Inr [3 / 2, 5, UNSEEN, UNSEEN, UNSEEN, UNSEEN, UNSEEN, UNSEEN, UNSEEN, UNSEEN, UNSEEN, UNSEEN]
   \<and> healpix_bin hp0 [0, 0, 1 / 4] [0, 0, 0] None 1 False
     = Inr [2, 1, UNSEEN, UNSEEN, UNSEEN, UNSEEN, UNSEEN, UNSEEN, UNSEEN, UNSEEN, UNSEEN, UNSEEN]
   \<and> map2 (angle_to_pixel hp0 1 False) [0, 0, 1 / 4] [0, 0, 0] = [0, 0, 1]
   \<and> hits 12 [0, 0, 1] 0 = 2 \<and> hit_sum 12 [0, 0, 1] [1, 2, 5] 0 = 3
   \<and> hits 12 [0, 0, 1] 1 = 1 \<and> hit_sum 12 [0, 0, 1] [1, 2, 5] 1 = 5
   \<and> hits 12 [0, 0, 1] 2 = 0"
proof -
  have small: "\<forall>p < nside_to_npixel hp0 1.
      hits (nside_to_npixel hp0 1) (map2 (angle_to_pixel hp0 1 False) [0, 0, 1 / 4] [0, 0, 0]) p < 2 ^ 31"
  proof (intro allI impI)
    fix p
    have "hits (nside_to_npixel hp0 1) (map2 (angle_to_pixel hp0 1 False) [0, 0, 1 / 4] [0, 0, 0]) p
            \<le> length (map2 (angle_to_pixel hp0 1 False) [0, 0, 1 / 4] [0, 0, 0])"
      by (rule hits_le_length)
    also have "\<dots> < 2 ^ 31"
      by simp
    finally show "hits (nside_to_npixel hp0 1) (map2 (angle_to_pixel hp0 1 False) [0, 0, 1 / 4] [0, 0, 0]) p
                 < 2 ^ 31" .
  qed
  have pix: "map2 (angle_to_pixel hp0 1 False) [0, 0, 1 / 4] [0, 0, 0] = [0, 0, 1]"
    by (simp add: hp0_def)
  have h: "hits 12 [0, 0, 1] 0 = 2" "hit_sum 12 [0, 0, 1] [1, 2, 5] 0 = 3"
    "hits 12 [0, 0, 1] 1 = 1" "hit_sum 12 [0, 0, 1] [1, 2, 5] 1 = 5" "hits 12 [0, 0, 1] 2 = 0"
    by (simp_all add: hits_def hit_sum_def norm_index_def)
  from healpix_bin_counts_and_means [OF healpix_bin_example_means small]
    healpix_bin_counts_and_means [OF healpix_bin_example_counts small] healpix_bin_example_means healpix_bin_example_counts pix h
  show ?thesis
    by simp
qed

section \<open>Properties of the longitude-range estimator\<close>


lemma healpix_pixels_range_unfold:
  assumes "pixels \<noteq> []"
  shows "healpix_pixels_range wv hp nside pixels wrap nest =
    Inr (if full_range wrap (lon_bound hp nside pixels wrap nest)
         then (wv (fmod360 (wrap + 180)) - 180, wv (fmod360 (wrap + 180)) + 180 - 1 / 10 ^ 5)
         else lon_bound hp nside pixels wrap nest,
         lat_bound hp nside pixels nest)"
  using assms
  by (simp add: healpix_pixels_range_def lon_bound_def lat_bound_def eps_lon_def pix_lon_def
      pix_lat_def Let_def)

lemma fmod360_range: "0 \<le> fmod360 x" "fmod360 x < 360"
proof -
  have "of_int \<lfloor>x / 360\<rfloor> \<le> x / 360" "x / 360 < of_int \<lfloor>x / 360\<rfloor> + 1"
    by linarith+
  then show "0 \<le> fmod360 x" "fmod360 x < 360"
    by (simp_all add: fmod360_def field_simps)
qed

lemma list_min_le: "x \<in> set xs \<Longrightarrow> list_min xs \<le> x"
  by (induction xs rule: list_min.induct) auto

lemma list_max_ge: "x \<in> set xs \<Longrightarrow> x \<le> list_max xs"
  by (induction xs rule: list_max.induct) auto

lemma list_min_in: "xs \<noteq> [] \<Longrightarrow> list_min xs \<in> set xs"
  by (induction xs rule: list_min.induct) (auto simp: min_def)

lemma list_max_in: "xs \<noteq> [] \<Longrightarrow> list_max xs \<in> set xs"
  by (induction xs rule: list_max.induct) (auto simp: max_def)

lemma lon_wrap_range:
  assumes "l \<in> set (lon_wrap wrap lon)"
  shows "- wrap \<le> l" "l < 360 - wrap"
  using assms fmod360_range by (auto simp: lon_wrap_def)

lemma spread_lon_wrap:
  assumes "lon \<noteq> []"
  shows "spread (lon_wrap wrap lon) < 360" "0 \<le> spread (lon_wrap wrap lon)"
proof -
  from assms have ne: "lon_wrap wrap lon \<noteq> []" by (simp add: lon_wrap_def)
  from lon_wrap_range(2) [OF list_max_in [OF ne]] lon_wrap_range(1) [OF list_min_in [OF ne]]
  show "spread (lon_wrap wrap lon) < 360" by (simp add: spread_def)
  from list_min_le [OF list_max_in [OF ne]]
  show "0 \<le> spread (lon_wrap wrap lon)" by (simp add: spread_def)
qed

lemma median_bounds:
  assumes "xs \<noteq> []" "\<forall>x \<in> set xs. a < x \<and> x < b"
  shows "a < median xs" "median xs < b"
proof -
  let ?s = "sort xs"
  let ?n = "length xs"
  from assms(1) have n: "0 < ?n" by simp
  have el: "a < ?s ! i \<and> ?s ! i < b" if "i < ?n" for i
  proof -
    from that have "?s ! i \<in> set ?s" by (intro nth_mem) simp
    with assms(2) show ?thesis by simp
  qed
  have i1: "?n div 2 < ?n" using n by simp
  have i2: "?n div 2 - 1 < ?n" using n by arith
  from el [OF i1] el [OF i2] show "a < median xs" "median xs < b"
    by (auto simp: median_def Let_def)
qed

text \<open>
  Claim C1, amended. When the longitude bound of a non-empty pixel set passes the check
  for the full range, the returned longitude range is
  \<open>(lon_0 - 180, lon_0 + 180 - 10\<^sup>-\<^sup>5)\<close> with \<open>lon_0 = wrap_values((wrap + 180) mod 360)\<close>:
  its width is \<open>360 - 10\<^sup>-\<^sup>5\<close> and its centre is \<open>lon_0\<close>, not \<open>wrap\<close>. For \<open>wrap = 0\<close> and
  pixels at the longitudes 359 and 1 the returned width is \<open>360 - 10\<^sup>-\<^sup>5\<close> when
  \<open>eps_lon \<ge> 1/2\<close> and \<open>358 + 2 \<cdot> eps_lon\<close> otherwise.
\<close>

theorem full_range_replaces_longitude_bound:
  "(pixels \<noteq> [] \<and> full_range wrap (lon_bound hp nside pixels wrap nest) \<longrightarrow>
      (\<exists>lat_range. healpix_pixels_range wv hp nside pixels wrap nest =
          Inr ((wv (fmod360 (wrap + 180)) - 180, wv (fmod360 (wrap + 180)) + 180 - 1 / 10 ^ 5), lat_range)))
   \<and> (pix_lon hp nside nest pixels = [359, 1] \<longrightarrow>
      (\<exists>lon_range lat_range. healpix_pixels_range wv hp nside pixels 0 nest = Inr (lon_range, lat_range)
          \<and> width lon_range = (if eps_lon hp nside nest pixels \<ge> 1 / 2 then 360 - 1 / 10 ^ 5
                                else 358 + 2 * eps_lon hp nside nest pixels)))"
proof (intro conjI impI)
  assume "pixels \<noteq> [] \<and> full_range wrap (lon_bound hp nside pixels wrap nest)"
  then show "\<exists>lat_range. healpix_pixels_range wv hp nside pixels wrap nest =
          Inr ((wv (fmod360 (wrap + 180)) - 180, wv (fmod360 (wrap + 180)) + 180 - 1 / 10 ^ 5), lat_range)"
    by (simp add: healpix_pixels_range_unfold)
next
  assume l: "pix_lon hp nside nest pixels = [359, 1]"
  then have ne: "pixels \<noteq> []" by (auto simp: pix_lon_def)
  have f1: "fmod360 359 = 359" "fmod360 1 = 1"
    by (simp_all add: fmod360_def)
  have b: "lon_bound hp nside pixels 0 nest
             = (1 - eps_lon hp nside nest pixels, 359 + eps_lon hp nside nest pixels)"
    by (simp add: lon_bound_def l lon_wrap_def f1)
  have fr: "full_range 0 (lon_bound hp nside pixels 0 nest) = (eps_lon hp nside nest pixels \<ge> 1 / 2)"
    unfolding b full_range_def by auto
  show "\<exists>lon_range lat_range. healpix_pixels_range wv hp nside pixels 0 nest = Inr (lon_range, lat_range)
          \<and> width lon_range = (if eps_lon hp nside nest pixels \<ge> 1 / 2 then 360 - 1 / 10 ^ 5
                                else 358 + 2 * eps_lon hp nside nest pixels)"
    using fr by (auto simp: healpix_pixels_range_unfold [OF ne] b width_def)
qed

text \<open>
  Claim C2, amended. For a non-empty pixel set with centres strictly between the poles
  and a non-negative pixel radius, both ends of the returned latitude range lie in
  \<open>[-90, 90]\<close>, the width of the returned longitude range is at most 360, and it is at
  least the spread of the re-wrapped longitudes when the range is not replaced by the full
  range; the full range, of width \<open>360 - 10\<^sup>-\<^sup>5\<close>, is wider than the spread less \<open>10\<^sup>-\<^sup>5\<close>.
\<close>

theorem healpix_pixels_range_bounds:
  assumes ne: "pixels \<noteq> []"
    and lat: "\<forall>p \<in> set pixels. - 90 < snd (pixel_to_angle hp nside nest p)
                               \<and> snd (pixel_to_angle hp nside nest p) < 90"
    and eps: "0 \<le> max_pixel_radius hp nside"
  shows "\<exists>lon_range lat_range.
       healpix_pixels_range wv hp nside pixels wrap nest = Inr (lon_range, lat_range)
     \<and> - 90 \<le> fst lat_range \<and> fst lat_range \<le> 90 \<and> - 90 \<le> snd lat_range \<and> snd lat_range \<le> 90
     \<and> width lon_range \<le> 360
     \<and> spread (lon_wrap wrap (pix_lon hp nside nest pixels)) - 1 / 10 ^ 5 < width lon_range
     \<and> (\<not> full_range wrap (lon_bound hp nside pixels wrap nest) \<longrightarrow>
          spread (lon_wrap wrap (pix_lon hp nside nest pixels)) \<le> width lon_range)"
proof -
  let ?lat = "pix_lat hp nside nest pixels"
  let ?lw = "lon_wrap wrap (pix_lon hp nside nest pixels)"
  let ?e = "max_pixel_radius hp nside"
  from ne have lne: "?lat \<noteq> []" and pne: "pix_lon hp nside nest pixels \<noteq> []"
    by (simp_all add: pix_lat_def pix_lon_def)
  from lat have lb: "\<forall>x \<in> set ?lat. - 90 < x \<and> x < 90"
    by (auto simp: pix_lat_def)
  from lb list_min_in [OF lne] have mn: "list_min ?lat < 90" by blast
  from lb list_max_in [OF lne] have mx: "- 90 < list_max ?lat" by blast
  have latr: "- 90 \<le> fst (lat_bound hp nside pixels nest)" "fst (lat_bound hp nside pixels nest) \<le> 90"
    "- 90 \<le> snd (lat_bound hp nside pixels nest)" "snd (lat_bound hp nside pixels nest) \<le> 90"
    using mn mx eps by (simp_all add: lat_bound_def)
  have d2r: "- (pi / 2) < deg2rad x \<and> deg2rad x < pi / 2" if "- 90 < x" "x < 90" for x
  proof -
    have e: "deg2rad x = x * pi / 180" by (simp add: deg2rad_def)
    have "x * pi < 90 * pi" "(- 90) * pi < x * pi"
      using that pi_gt_zero by (intro mult_strict_right_mono; simp)+
    then show ?thesis unfolding e by linarith
  qed
  from median_bounds [OF lne lb] have "- (pi / 2) < deg2rad (median ?lat)" "deg2rad (median ?lat) < pi / 2"
    using d2r by blast+
  then have "0 < cos (deg2rad (median ?lat))"
    by (rule cos_gt_zero_pi)
  with eps have el: "0 \<le> eps_lon hp nside nest pixels"
    by (simp add: eps_lon_def)
  have wb: "width (lon_bound hp nside pixels wrap nest) = spread ?lw + 2 * eps_lon hp nside nest pixels"
    by (simp add: width_def lon_bound_def spread_def)
  note sp = spread_lon_wrap [OF pne, of wrap]
  show ?thesis
  proof (cases "full_range wrap (lon_bound hp nside pixels wrap nest)")
    case True
    then show ?thesis
      using latr sp by (simp add: healpix_pixels_range_unfold [OF ne] width_def)
  next
    case False
    then have "width (lon_bound hp nside pixels wrap nest) < 359"
      by (auto simp: full_range_def width_def split: if_splits)
    with False show ?thesis
      using latr sp wb el by (simp add: healpix_pixels_range_unfold [OF ne])
  qed
qed


lemma median_two_zeros: "median [0, 0] = 0"
  by (simp add: median_def)

lemma hp0_eps_lon: "eps_lon hp0 4 False [359, 1] = 1" "eps_lon hp0 4 False [10, 20] = 1"
  by (simp_all add: eps_lon_def pix_lat_def hp0_def median_two_zeros deg2rad_def)

lemma hp0_pix_lon: "pix_lon hp0 4 False [359, 1] = [359, 1]" "pix_lon hp0 4 False [10, 20] = [10, 20]"
  by (simp_all add: pix_lon_def hp0_def)

lemma fmod360_small: "0 \<le> x \<Longrightarrow> x < 360 \<Longrightarrow> fmod360 x = x"
proof -
  assume "0 \<le> x" "x < 360"
  then have "\<lfloor>x / 360\<rfloor> = 0" by (intro floor_unique) simp_all
  then show ?thesis by (simp add: fmod360_def)
qed

lemma fmod360_360: "0 \<le> x \<Longrightarrow> x < 360 \<Longrightarrow> fmod360 (x + 360) = x"
proof -
  assume "0 \<le> x" "x < 360"
  then have "\<lfloor>(x + 360) / 360\<rfloor> = 1" by (intro floor_unique) simp_all
  then show ?thesis by (simp add: fmod360_def)
qed

lemma hp0_bound_0: "lon_bound hp0 4 [359, 1] 0 False = (0, 360)"
  by (simp add: lon_bound_def hp0_pix_lon hp0_eps_lon lon_wrap_def fmod360_small)

lemma hp0_bound_360: "lon_bound hp0 4 [359, 1] 360 False = (- 360, 0)"
proof -
  have "fmod360 719 = 359" "fmod360 361 = 1"
    using fmod360_360 [of 359] fmod360_360 [of 1] by simp_all
  then show ?thesis
    by (simp add: lon_bound_def hp0_pix_lon hp0_eps_lon lon_wrap_def)
qed

lemma hp0_full: "full_range 0 (lon_bound hp0 4 [359, 1] 0 False)"
  "full_range 360 (lon_bound hp0 4 [359, 1] 360 False)"
  by (simp_all add: hp0_bound_0 hp0_bound_360 full_range_def)

lemma hp0_lat_bound: "lat_bound hp0 4 [359, 1] False = (- 1, 1)" "lat_bound hp0 4 [10, 20] False = (- 1, 1)"
  by (simp_all add: lat_bound_def pix_lat_def hp0_def)

text \<open>
  Claim C1 as stated fails. The same pixel set passes the check at \<open>wrap = 0\<close> and at
  \<open>wrap = 360\<close>, and \<open>(wrap + 180) mod 360\<close> is 180 in both cases: whatever
  \<^verbatim>\<open>wrap_values\<close> computes, the two returned ranges are equal and cannot be
  \<open>[wrap - 180, wrap + 180)\<close> for both.
\<close>

theorem full_range_not_centred_on_wrap:
  "full_range 0 (lon_bound hp0 4 [359, 1] 0 False)
   \<and> full_range 360 (lon_bound hp0 4 [359, 1] 360 False)
   \<and> \<not> (\<exists>wv. map_sum id fst (healpix_pixels_range wv hp0 4 [359, 1] 0 False)
                 = Inr (- 180, 180 - 1 / 10 ^ 5)
             \<and> map_sum id fst (healpix_pixels_range wv hp0 4 [359, 1] 360 False)
                 = Inr (180, 540 - 1 / 10 ^ 5))"
proof -
  have e: "fmod360 (360 + 180) = fmod360 (0 + 180)"
    using fmod360_360 [of 180] fmod360_small [of 180] by simp
  have "\<not> (map_sum id fst (healpix_pixels_range wv hp0 4 [359, 1] 0 False)
                 = Inr (- 180, 180 - 1 / 10 ^ 5)
             \<and> map_sum id fst (healpix_pixels_range wv hp0 4 [359, 1] 360 False)
                 = Inr (180, 540 - 1 / 10 ^ 5))" for wv
    using hp0_full e by (simp add: healpix_pixels_range_unfold)
  with hp0_full show ?thesis by blast
qed

lemma hp0_range_0:
  "healpix_pixels_range (\<lambda>v. v) hp0 4 [359, 1] 0 False = Inr ((0, 360 - 1 / 10 ^ 5), (- 1, 1))"
  using hp0_full(1) fmod360_small [of 180]
  by (simp add: healpix_pixels_range_unfold hp0_lat_bound)

lemma hp0_bound_10_20: "lon_bound hp0 4 [10, 20] 0 False = (9, 21)"
  by (simp add: lon_bound_def hp0_pix_lon hp0_eps_lon lon_wrap_def fmod360_small)

lemma hp0_range_10_20:
  "healpix_pixels_range (\<lambda>v. v) hp0 4 [10, 20] 0 False = Inr ((9, 21), (- 1, 1))"
  by (simp add: healpix_pixels_range_unfold hp0_lat_bound hp0_bound_10_20 full_range_def)

theorem full_range_replaces_longitude_bound_witness:
  "pix_lon hp0 4 False [359, 1] = [359, 1]
   \<and> full_range 0 (lon_bound hp0 4 [359, 1] 0 False)
   \<and> eps_lon hp0 4 False [359, 1] = 1
   \<and> healpix_pixels_range (\<lambda>v. v) hp0 4 [359, 1] 0 False = Inr ((0, 360 - 1 / 10 ^ 5), (- 1, 1))
   \<and> width (0, 360 - 1 / 10 ^ 5) = 360 - 1 / 10 ^ 5"
  using full_range_replaces_longitude_bound [of "[359, 1]" 0 hp0 4 False "\<lambda>v. v"] hp0_pix_lon(1) hp0_full(1) hp0_eps_lon(1) hp0_range_0
  by (simp add: width_def)

theorem healpix_pixels_range_bounds_witness:
  "pixel_to_angle hp0 4 False 10 = (10, 0) \<and> pixel_to_angle hp0 4 False 20 = (20, 0)
   \<and> 0 \<le> max_pixel_radius hp0 4
   \<and> healpix_pixels_range (\<lambda>v. v) hp0 4 [10, 20] 0 False = Inr ((9, 21), (- 1, 1))
   \<and> spread (lon_wrap 0 (pix_lon hp0 4 False [10, 20])) = 10
   \<and> width (9, 21) = 12"
proof -
  have a: "[10, 20 :: int] \<noteq> []" by simp
  have b: "\<forall>p \<in> set [10, 20]. - 90 < snd (pixel_to_angle hp0 4 False p)
             \<and> snd (pixel_to_angle hp0 4 False p) < 90"
    by (simp add: hp0_def)
  have c: "0 \<le> max_pixel_radius hp0 4"
    by (simp add: hp0_def)
  have d: "spread (lon_wrap 0 (pix_lon hp0 4 False [10, 20])) = 10"
    by (simp add: hp0_pix_lon lon_wrap_def fmod360_small spread_def)
  have e: "pixel_to_angle hp0 4 False 10 = (10, 0)" "pixel_to_angle hp0 4 False 20 = (20, 0)"
    by (simp_all add: hp0_def)
  from healpix_pixels_range_bounds [OF a b c, of "\<lambda>v. v" 0] c d e hp0_range_10_20 show ?thesis
    by (simp add: width_def)
qed

lemma hp1_lon_wrap:
  "lon_wrap 0 (pix_lon hp1 16777216 False [0, 1]) = [45 / 16777216, 360 - 45 / 16777216]"
  by (simp add: pix_lon_def hp1_def lon_wrap_def fmod360_small)

lemma hp1_bound:
  "lon_bound hp1 16777216 [0, 1] 0 False
     = (45 / 16777216 - 1 / 100000, 360 - 45 / 16777216 + 1 / 100000)"
  unfolding lon_bound_def hp1_lon_wrap
  by (simp add: eps_lon_def pix_lat_def hp1_def median_two_zeros deg2rad_def)

text \<open>
  Claim C2 as stated fails: the two end pixels of a ring at resolution \<open>2\<^sup>2\<^sup>4\<close> are
  \<open>360 - 90 / 2\<^sup>2\<^sup>4\<close> degrees apart, the range is replaced by the full range, and the
  full range is \<open>360 - 10\<^sup>-\<^sup>5\<close> degrees wide, which is less.
\<close>

theorem full_range_narrower_than_spread:
  "(\<forall>wv. map_sum id (\<lambda>r. width (fst r)) (healpix_pixels_range wv hp1 16777216 [0, 1] 0 False)
            = Inr (360 - 1 / 100000))
   \<and> spread (lon_wrap 0 (pix_lon hp1 16777216 False [0, 1])) = 360 - 90 / 16777216
   \<and> (360 - 1 / 100000 :: real) < 360 - 90 / 16777216"
proof -
  have f: "full_range 0 (lon_bound hp1 16777216 [0, 1] 0 False)"
    unfolding hp1_bound full_range_def by simp
  have "map_sum id (\<lambda>r. width (fst r)) (healpix_pixels_range wv hp1 16777216 [0, 1] 0 False)
            = Inr (360 - 1 / 100000)" for wv
    using f by (simp add: healpix_pixels_range_unfold width_def)
  moreover have "spread (lon_wrap 0 (pix_lon hp1 16777216 False [0, 1])) = 360 - 90 / 16777216"
    unfolding hp1_lon_wrap by (simp add: spread_def)
  moreover have "(360 - 1 / 100000 :: real) < 360 - 90 / 16777216"
    by simp
  ultimately show ?thesis by blast
qed
section \<open>Properties of the crossing detector\<close>

text \<open>
  Claim C9. For the polyline from \<open>(-2, 0)\<close> to \<open>(2, 0)\<close> and the box \<open>[-1, 1] \<times> [-1, 1]\<close>
  the detector returns one left crossing at \<open>(-1, 0)\<close> with angle 0 degrees, one right
  crossing at \<open>(1, 0)\<close> with angle 0 degrees, and no bottom and no top crossing.
\<close>

theorem horizontal_line_crossings:
  "find_line_box_crossings [(- 2, 0), (2, 0)] \<lparr>bx0 = - 1, by0 = - 1, bx1 = 1, by1 = 1\<rparr>
     = [[((- 1, 0), 0)], [((1, 0), 0)], [], []]"
  by (simp add: find_line_box_crossings_def axis_crossings_def sl_pair_def bbox_min_def
      bbox_max_def diffs_def xor_idxs_def crossing_at_def arctan2_def degrees_def)

section \<open>Properties of the grid engine\<close>

text \<open>With both overrides absent the counts are 6 latitude lines and
  \<open>\<lceil>6 \<cdot> ratio\<rceil>\<close> longitude lines, the ratio taken with the signed latitude extent.\<close>

lemma compute_n_grid_default:
  assumes "e3 \<noteq> e2"
  shows "compute_n_grid_from_extent (e0, e1, e2, e3) None None =
           Inr (\<lceil>clip (\<bar>e1 - e0\<bar> * cos (deg2rad ((e2 + e3) / 2)) / (e3 - e2)) (1 / 3) (5 / 3) * 6\<rceil>, 6)"
  using assms by (simp add: compute_n_grid_from_extent_def grid_ratio_def)

text \<open>
  Claim C3 says that an override supplied to the constructor is returned as the
  count. The code assigns \<^verbatim>\<open>n_grid_lat\<close> and \<^verbatim>\<open>n_grid_lon\<close> only when the override is
  absent: with either override present the computation raises \<^verbatim>\<open>UnboundLocalError\<close>,
  whatever the extent and the other override are.
\<close>

theorem compute_n_grid_override_raises:
  "compute_n_grid_from_extent ext (Some n) lon_default = Inl UnboundLocalError
   \<and> compute_n_grid_from_extent ext lat_default (Some m) = Inl UnboundLocalError"
  by (simp add: compute_n_grid_from_extent_def split: option.splits)

lemma update_lim_keeps_grid_info:
  assumes "update_lim c self ax = (self', r)" and "h_grid_info self \<noteq> None"
  shows "h_grid_info self' \<noteq> None"
  using assms
  by (auto simp: update_lim_def Let_def split: prod.splits if_splits sum.splits)

lemma init_sets_grid_info:
  assumes "init c ax proj wrap n_lon n_lat fc = Inr self"
  shows "h_grid_info self \<noteq> None"
  using assms
  by (auto simp: init_def update_lim_def Let_def
      split: prod.splits if_splits sum.splits option.splits)

lemma reachable_grid_info: "reachable c self \<Longrightarrow> h_grid_info self \<noteq> None"
  by (induction rule: reachable.induct)
    (auto dest: init_sets_grid_info update_lim_keeps_grid_info)

lemma init_collab0:
  "\<exists>self. init collab0 axis0 \<lparr>name = ''cyl'', radius = 1\<rparr> 0 None None False = Inr self"
  by (simp add: init_def update_lim_def axis0_def collab0_def compute_n_grid_from_extent_def
      grid_ratio_def deg2rad_def get_grid_info_def get_raw_grid_lines_def Let_def)

text \<open>
  Claim C10. A helper that was constructed successfully, and any state later calls of
  \<^verbatim>\<open>update_lim\<close> bring it to, has its grid information set, so \<^verbatim>\<open>get_gridlines\<close>
  does not raise the "not initialized" error.
\<close>

theorem get_gridlines_initialized:
  assumes "reachable c self"
  shows "get_gridlines self axis \<noteq> Inl NotInitializedError"
proof -
  from assms obtain gi where gi: "h_grid_info self = Some gi"
    using reachable_grid_info by blast
  have no_raise: "mapE (cut_grid_line_jumps self) ls \<noteq> Inl NotInitializedError" for ls
  proof (induction ls)
    case Nil
    show ?case by simp
  next
    case (Cons l ls)
    have "cut_grid_line_jumps self l \<noteq> Inl NotInitializedError"
      by (simp add: cut_grid_line_jumps_def Let_def split: list.splits)
    with Cons show ?case
      by (auto split: sum.splits)
  qed
  show ?thesis
    using gi no_raise [of "lines (gi_lon gi)"] no_raise [of "lines (gi_lat gi)"]
    by (auto simp: get_gridlines_def split: sum.splits)
qed

theorem get_gridlines_initialized_witness:
  "\<exists>self. init collab0 axis0 \<lparr>name = ''cyl'', radius = 1\<rparr> 0 None None False = Inr self
     \<and> reachable collab0 self
     \<and> get_gridlines self ''both'' \<noteq> Inl NotInitializedError"
proof -
  from init_collab0 obtain self
    where i: "init collab0 axis0 \<lparr>name = ''cyl'', radius = 1\<rparr> 0 None None False = Inr self"
    by blast
  then have r: "reachable collab0 self"
    by (rule reachable.constructed)
  from i r get_gridlines_initialized [OF r, of "''both''"] show ?thesis
    by blast
qed

end
